theory Spec2Isabelle
  imports Complex_Main "HOL-Library.Char_ord" "HOL-Library.List_Lexorder" "HOL-Library.Sublist"
begin

section \<open>Python values, exceptions and builtins\<close>

text \<open>
  A Python float is modelled by the real number it stands for, plus the three special
  values. Rounding is not modelled, and the two signed zeros are one value: the code only
  tests a float for truth, and both zeros are false.
\<close>

datatype pyfloat = FNum real | FPosInf | FNegInf | FNaN

text \<open>The values that \<open>json.loads\<close>, a reply of the Redis client or a database cell can hold.\<close>

datatype pyval =
    PNone
  | PBool bool
  | PInt int
  | PFloat pyfloat
  | PStr string
  | PList "pyval list"
  | PTuple "pyval list"
  | PDict "(string \<times> pyval) list"

type_synonym pydict = "(string \<times> pyval) list"

text \<open>
  The exceptions that the code raises, catches or lets through. \<open>CancelledError\<close> derives
  from \<open>BaseException\<close> only, so that \<open>except Exception\<close> does not catch it, and so
  does every exception that \<open>BaseException\<close> stands for here (\<open>KeyboardInterrupt\<close>,
  \<open>SystemExit\<close>); \<open>JSONDecodeError\<close> derives from \<open>ValueError\<close>.
\<close>

datatype exn =
    CancelledError
  | BaseException string
  | ValueError
  | TypeError
  | KeyError
  | IndexError
  | OverflowError
  | JSONDecodeError
  | RedisError string
  | PostgresError string
  | HTTPException nat string

definition is_Exception :: "exn \<Rightarrow> bool" where
  "is_Exception e = (case e of CancelledError \<Rightarrow> False | BaseException name \<Rightarrow> False | _ \<Rightarrow> True)"

definition is_ValueError :: "exn \<Rightarrow> bool" where
  "is_ValueError e = (e = ValueError \<or> e = JSONDecodeError)"

text \<open>
  The parsers of the Python runtime are not part of the repository: they are parameters of
  the model. \<open>None\<close> stands for the \<open>ValueError\<close> (for \<open>json_loads\<close>, the
  \<open>JSONDecodeError\<close>) that the builtin raises on a string it rejects.
\<close>

record python =
  float_of_str :: "string \<Rightarrow> pyfloat option"
  int_of_str :: "string \<Rightarrow> int option"
  json_loads :: "string \<Rightarrow> pyval option"

text \<open>\<open>float(x)\<close>\<close>

fun py_float :: "python \<Rightarrow> pyval \<Rightarrow> exn + pyfloat" where
  "py_float bi (PStr s) = (case float_of_str bi s of None \<Rightarrow> Inl ValueError | Some x \<Rightarrow> Inr x)"
| "py_float bi (PFloat x) = Inr x"
| "py_float bi (PInt n) =
     (if 2 ^ 1024 - 2 ^ 970 \<le> \<bar>n\<bar> then Inl OverflowError else Inr (FNum (of_int n)))"
| "py_float bi (PBool b) = Inr (FNum (if b then 1 else 0))"
| "py_float bi PNone = Inl TypeError"
| "py_float bi (PList xs) = Inl TypeError"
| "py_float bi (PTuple xs) = Inl TypeError"
| "py_float bi (PDict kvs) = Inl TypeError"

text \<open>\<open>int(x)\<close>: a float is cut off towards zero.\<close>

fun py_int :: "python \<Rightarrow> pyval \<Rightarrow> exn + int" where
  "py_int bi (PStr s) = (case int_of_str bi s of None \<Rightarrow> Inl ValueError | Some n \<Rightarrow> Inr n)"
| "py_int bi (PInt n) = Inr n"
| "py_int bi (PBool b) = Inr (if b then 1 else 0)"
| "py_int bi (PFloat (FNum x)) = Inr (if 0 \<le> x then \<lfloor>x\<rfloor> else \<lceil>x\<rceil>)"
| "py_int bi (PFloat FNaN) = Inl ValueError"
| "py_int bi (PFloat FPosInf) = Inl OverflowError"
| "py_int bi (PFloat FNegInf) = Inl OverflowError"
| "py_int bi PNone = Inl TypeError"
| "py_int bi (PList xs) = Inl TypeError"
| "py_int bi (PTuple xs) = Inl TypeError"
| "py_int bi (PDict kvs) = Inl TypeError"

text \<open>\<open>json.loads(x)\<close>: what is no string is a \<open>TypeError\<close>.\<close>

definition py_json_loads :: "python \<Rightarrow> pyval \<Rightarrow> exn + pyval" where
  "py_json_loads bi x =
     (case x of
        PStr s \<Rightarrow> (case json_loads bi s of None \<Rightarrow> Inl JSONDecodeError | Some v \<Rightarrow> Inr v)
      | _ \<Rightarrow> Inl TypeError)"

text \<open>The truth value of a float: \<open>if lat and lng\<close>.\<close>

definition truthy :: "pyfloat \<Rightarrow> bool" where
  "truthy x = (x \<noteq> FNum 0)"

text \<open>\<open>position[key]\<close> with a string key.\<close>

fun py_getitem :: "pyval \<Rightarrow> string \<Rightarrow> exn + pyval" where
  "py_getitem (PDict kvs) k = (case map_of kvs k of None \<Rightarrow> Inl KeyError | Some v \<Rightarrow> Inr v)"
| "py_getitem v k = Inl TypeError"

text \<open>\<open>sub in s\<close> on strings.\<close>

fun py_in :: "string \<Rightarrow> string \<Rightarrow> bool" where
  "py_in sub [] = (sub = [])"
| "py_in sub (c # cs) = (prefix sub (c # cs) \<or> py_in sub cs)"

text \<open>\<open>s.split(sep)\<close> with a separator of one character.\<close>

fun split :: "char \<Rightarrow> string \<Rightarrow> string list" where
  "split sep [] = [[]]"
| "split sep (c # cs) =
     (if c = sep then [] # split sep cs
      else (case split sep cs of [] \<Rightarrow> [[c]] | w # ws \<Rightarrow> (c # w) # ws))"

text \<open>\<open>xs[i]\<close> for \<open>i \<ge> 0\<close>, raising \<open>IndexError\<close> out of range.\<close>

definition index :: "'a list \<Rightarrow> nat \<Rightarrow> exn + 'a" where
  "index xs i = (if i < length xs then Inr (xs ! i) else Inl IndexError)"

section \<open>The Redis client\<close>

text \<open>
  The keyed store: its keys, the hash stored at each key (a field list without repeated
  fields, empty where there is no hash), the sorted set stored at each key (its members
  with their scores, in ascending order of the scores, as \<open>ZRANGE key 0 -1\<close> delivers
  them; empty where there is no sorted set), and the commands that fail.
\<close>

datatype command = KEYS string | HGETALL string | ZRANGE string

record redis =
  keyspace :: "string list"
  hash_at :: "string \<Rightarrow> (string \<times> string) list"
  zset_at :: "string \<Rightarrow> (string \<times> real) list"
  fault :: "command \<Rightarrow> exn option"

text \<open>A pattern with one trailing \<open>*\<close>, as \<open>vehicle:*\<close> is.\<close>

definition matches :: "string \<Rightarrow> string \<Rightarrow> bool" where
  "matches pat k =
     (if pat \<noteq> [] \<and> last pat = CHR ''*'' then prefix (butlast pat) k else k = pat)"

definition redis_keys :: "redis \<Rightarrow> string \<Rightarrow> exn + string list" where
  "redis_keys r pat =
     (case fault r (KEYS pat) of
        Some e \<Rightarrow> Inl e
      | None \<Rightarrow> Inr (filter (matches pat) (keyspace r)))"

definition redis_hgetall :: "redis \<Rightarrow> string \<Rightarrow> exn + (string \<times> string) list" where
  "redis_hgetall r k =
     (case fault r (HGETALL k) of Some e \<Rightarrow> Inl e | None \<Rightarrow> Inr (hash_at r k))"

text \<open>
  \<open>zrange(key, 0, -1, withscores=True)\<close> of the client that \<open>main.py\<close> imports
  (\<open>redis.asyncio\<close>, with \<open>decode_responses=True\<close>): the reply is a list with one pair for
  each member, the member as a string and its score as a float.
\<close>

definition paired :: "(string \<times> real) list \<Rightarrow> pyval list" where
  "paired h = map (\<lambda>(member, score). PTuple [PStr member, PFloat (FNum score)]) h"

definition redis_zrange :: "redis \<Rightarrow> string \<Rightarrow> exn + pyval list" where
  "redis_zrange r k =
     (case fault r (ZRANGE k) of Some e \<Rightarrow> Inl e | None \<Rightarrow> Inr (paired (zset_at r k)))"

text \<open>\<open>data.get(k, default)\<close> on a hash; the stored values are strings.\<close>

definition data_get :: "(string \<times> string) list \<Rightarrow> string \<Rightarrow> pyval \<Rightarrow> pyval" where
  "data_get data k dflt = (case map_of data k of None \<Rightarrow> dflt | Some v \<Rightarrow> PStr v)"

section \<open>The server state\<close>

datatype event = Vehicles "pydict list" | UserCount nat

text \<open>An emit with its room: \<open>None\<close> addresses every connected client.\<close>

datatype emit = Emit event "string option"

datatype log_line =
    Print string
  | PrintCount string nat string
  | PrintError string exn

text \<open>
  The globals of \<open>main.py\<close>, what has been emitted and printed, and the registry
  \<open>sio.manager.rooms\<close> of the Socket.IO server: a dictionary from a namespace to the
  dictionary of its rooms, each room with the session ids in it. The key of a room is a
  string or \<open>None\<close>.
\<close>

record server =
  vehicle_cache :: "pydict list"
  stops_cache :: "pydict list"
  stop_details_cache :: "(string \<times> pydict) list"
  rooms :: "(string \<times> (string option \<times> string list) list) list"
  emitted :: "emit list"
  printed :: "log_line list"

definition sio_emit :: "event \<Rightarrow> string option \<Rightarrow> server \<Rightarrow> server" where
  "sio_emit ev room st = st\<lparr>emitted := emitted st @ [Emit ev room]\<rparr>"

definition print :: "log_line \<Rightarrow> server \<Rightarrow> server" where
  "print l st = st\<lparr>printed := printed st @ [l]\<rparr>"

section \<open>The refresh cycle\<close>

text \<open>
  The keys that a refresh reads (\<open>main.py\<close>, line 189): the keys of the store under the
  pattern \<open>vehicle:*\<close> in which the text \<open>:track\<close> does not occur.
\<close>

definition live_keys :: "redis \<Rightarrow> string list" where
  "live_keys r =
     filter (\<lambda>key. \<not> py_in '':track'' key) (filter (matches ''vehicle:*'') (keyspace r))"

text \<open>
  The inner \<open>try\<close> of the loop of \<open>fetch_and_cache_vehicles\<close>: the entry to append, or
  \<open>None\<close> when \<open>lat and lng\<close> is false.
\<close>

definition vehicle_entry :: "python \<Rightarrow> string \<Rightarrow> (string \<times> string) list \<Rightarrow> exn + pydict option" where
  "vehicle_entry bi vehicle_id data =
     (case py_float bi (data_get data ''latitude'' (PInt 0)) of
        Inl e \<Rightarrow> Inl e
      | Inr lat \<Rightarrow>
          (case py_float bi (data_get data ''longitude'' (PInt 0)) of
             Inl e \<Rightarrow> Inl e
           | Inr lng \<Rightarrow>
               if truthy lat \<and> truthy lng then
                 Inr (Some
                   [(''id'', PStr vehicle_id),
                    (''lat'', PFloat lat),
                    (''lng'', PFloat lng),
                    (''rsn'', data_get data ''route_short_name'' (PStr ''N/A'')),
                    (''lp'', data_get data ''license_plate'' (PStr '''')),
                    (''tid'', data_get data ''trip_id'' (PStr '''')),
                    (''br'', data_get data ''two_shape_bearing''
                               (data_get data ''bearing'' (PStr ''0'')))])
               else Inr None))"

text \<open>The loop over the keys, with the list \<open>vehicles\<close> built so far.\<close>

fun scan_vehicles :: "python \<Rightarrow> redis \<Rightarrow> string list \<Rightarrow> pydict list \<Rightarrow> exn + pydict list" where
  "scan_vehicles bi r [] vehicles = Inr vehicles"
| "scan_vehicles bi r (key # keys) vehicles =
     (case redis_hgetall r key of
        Inl e \<Rightarrow> Inl e
      | Inr data \<Rightarrow>
          if data = [] then scan_vehicles bi r keys vehicles
          else
            (case index (split CHR '':'' key) 1 of
               Inl e \<Rightarrow> Inl e
             | Inr vehicle_id \<Rightarrow>
                 if map_of data ''status'' \<noteq> Some ''active'' then scan_vehicles bi r keys vehicles
                 else
                   (case vehicle_entry bi vehicle_id data of
                      Inl e \<Rightarrow>
                        if is_ValueError e \<or> e = TypeError then scan_vehicles bi r keys vehicles
                        else Inl e
                    | Inr None \<Rightarrow> scan_vehicles bi r keys vehicles
                    | Inr (Some v) \<Rightarrow> scan_vehicles bi r keys (vehicles @ [v]))))"

text \<open>
  The outer handler \<open>except Exception\<close>: the error is printed and the call returns; an
  exception that is no \<open>Exception\<close> leaves the call.
\<close>

definition on_error :: "string \<Rightarrow> exn \<Rightarrow> server \<Rightarrow> exn option \<times> server" where
  "on_error msg e st =
     (if is_Exception e then (None, print (PrintError msg e) st) else (Some e, st))"

definition fetch_and_cache_vehicles :: "python \<Rightarrow> redis \<Rightarrow> server \<Rightarrow> exn option \<times> server" where
  "fetch_and_cache_vehicles bi r st =
     (case redis_keys r ''vehicle:*'' of
        Inl e \<Rightarrow> on_error ''Error fetching vehicles: '' e st
      | Inr all_keys \<Rightarrow>
          (let keys = filter (\<lambda>key. \<not> py_in '':track'' key) all_keys in
           if keys = [] then (None, st\<lparr>vehicle_cache := []\<rparr>)
           else
             (case scan_vehicles bi r keys [] of
                Inl e \<Rightarrow> on_error ''Error fetching vehicles: '' e st
              | Inr vehicles \<Rightarrow>
                  (None,
                   sio_emit (Vehicles vehicles) None
                     (print (PrintCount ''Cached '' (length vehicles) '' vehicles from Redis'')
                        (st\<lparr>vehicle_cache := vehicles\<rparr>))))))"

text \<open>
  The periodic task. One element of the schedule is one turn of the loop: what the pause
  \<open>asyncio.sleep(30)\<close> raises (\<open>CancelledError\<close> at shutdown) and the store as it is
  when the refresh of that turn runs. The loop has no exit of its own: when the schedule
  is used up the task is still \<open>Pending\<close>.
\<close>

record cycle =
  sleep_raises :: "exn option"
  backend :: redis

datatype loop_exit = Pending | Break | Raised exn

fun periodic_vehicle_updates :: "python \<Rightarrow> cycle list \<Rightarrow> server \<Rightarrow> loop_exit \<times> server" where
  "periodic_vehicle_updates bi [] st = (Pending, st)"
| "periodic_vehicle_updates bi (c # cs) st =
     (case (case sleep_raises c of
              Some e \<Rightarrow> (Some e, st)
            | None \<Rightarrow> fetch_and_cache_vehicles bi (backend c) st) of
        (None, st') \<Rightarrow> periodic_vehicle_updates bi cs st'
      | (Some e, st') \<Rightarrow>
          if e = CancelledError then (Break, st')
          else if is_Exception e then
            periodic_vehicle_updates bi cs (print (PrintError ''Error in periodic update: '' e) st')
          else (Raised e, st'))"

section \<open>The push channel\<close>

text \<open>\<open>d[k] = v\<close> on a dictionary: a new key goes to the end.\<close>

fun dict_set :: "'k \<Rightarrow> 'v \<Rightarrow> ('k \<times> 'v) list \<Rightarrow> ('k \<times> 'v) list" where
  "dict_set k v [] = [(k, v)]"
| "dict_set k v (kv # d) = (if fst kv = k then (k, v) # d else kv # dict_set k v d)"

text \<open>
  The registry is written by the Socket.IO server, not by \<open>main.py\<close>. Before the server
  calls the handler \<open>connect\<close> for a new client, its manager puts the session id of the
  client into two rooms of the namespace: the room \<open>None\<close>, in which every client of the
  namespace is, and the room of the client itself, whose key is the session id
  (\<open>basic_enter_room\<close> and \<open>connect\<close> of the manager of python-socketio).
\<close>

definition basic_enter_room :: "string \<Rightarrow> string \<Rightarrow> string option \<Rightarrow> server \<Rightarrow> server" where
  "basic_enter_room sid namespace room st =
     (let of_namespace = (case map_of (rooms st) namespace of None \<Rightarrow> [] | Some d \<Rightarrow> d);
          of_room = (case map_of of_namespace room of None \<Rightarrow> [] | Some sids \<Rightarrow> sids)
      in st\<lparr>rooms :=
           dict_set namespace
             (dict_set room (if sid \<in> set of_room then of_room else of_room @ [sid])
                of_namespace)
             (rooms st)\<rparr>)"

definition manager_connect :: "string \<Rightarrow> server \<Rightarrow> server" where
  "manager_connect sid st =
     basic_enter_room sid ''/'' (Some sid) (basic_enter_room sid ''/'' None st)"

text \<open>
  \<open>len(sio.manager.rooms.get('/', {}).keys())\<close>: the number of the rooms of the default
  namespace.
\<close>

definition user_count :: "server \<Rightarrow> nat" where
  "user_count st =
     length (map fst (case map_of (rooms st) ''/'' of None \<Rightarrow> [] | Some d \<Rightarrow> d))"

definition connect :: "string \<Rightarrow> server \<Rightarrow> server" where
  "connect sid st =
     (let st1 = print (Print (''Client connected: '' @ sid)) st;
          st2 = sio_emit (Vehicles (vehicle_cache st1)) (Some sid) st1
      in sio_emit (UserCount (user_count st2)) None st2)"

definition disconnect :: "string \<Rightarrow> server \<Rightarrow> server" where
  "disconnect sid st =
     (let st1 = print (Print (''Client disconnected: '' @ sid)) st
      in sio_emit (UserCount (user_count st1)) None st1)"

section \<open>Queries on the store\<close>

definition get_vehicles :: "server \<Rightarrow> pydict list" where
  "get_vehicles st = vehicle_cache st"

text \<open>
  The handlers of \<open>get_vehicle_details\<close>: an \<open>HTTPException\<close> is raised again as it is,
  any other \<open>Exception\<close> is printed and becomes the response 500.
\<close>

definition details_error :: "exn \<Rightarrow> server \<Rightarrow> (exn + pydict) \<times> server" where
  "details_error e st =
     (case e of
        HTTPException code detail \<Rightarrow> (Inl e, st)
      | _ \<Rightarrow>
          if is_Exception e then
            (Inl (HTTPException 500 ''Failed to fetch vehicle details''),
             print (PrintError ''Error fetching vehicle details: '' e) st)
          else (Inl e, st))"

definition get_vehicle_details :: "python \<Rightarrow> redis \<Rightarrow> string \<Rightarrow> server \<Rightarrow> (exn + pydict) \<times> server" where
  "get_vehicle_details bi r vehicle_id st =
     (case redis_hgetall r (''vehicle:'' @ vehicle_id) of
        Inl e \<Rightarrow> details_error e st
      | Inr data \<Rightarrow>
          if data = [] then details_error (HTTPException 404 ''Vehicle not found'') st
          else
            (case py_float bi (data_get data ''latitude'' (PInt 0)) of
               Inl e \<Rightarrow> details_error e st
             | Inr lat \<Rightarrow>
                 (case py_float bi (data_get data ''longitude'' (PInt 0)) of
                    Inl e \<Rightarrow> details_error e st
                  | Inr lng \<Rightarrow>
                      (Inr
                        [(''id'', PStr vehicle_id),
                         (''lat'', PFloat lat),
                         (''lng'', PFloat lng),
                         (''lp'', data_get data ''license_plate'' (PStr [])),
                         (''r'', data_get data ''route_id'' (PStr ''N/A'')),
                         (''rsn'', data_get data ''route_short_name'' (PStr ''N/A'')),
                         (''rln'', data_get data ''route_long_name'' (PStr [])),
                         (''s'', data_get data ''stop_id'' (PStr ''N/A'')),
                         (''sn'', data_get data ''stop_name'' (PStr [])),
                         (''cs'', data_get data ''current_status'' (PStr [])),
                         (''th'', data_get data ''trip_headsign'' (PStr [])),
                         (''sp'', data_get data ''speed'' (PStr [])),
                         (''br'', data_get data ''two_shape_bearing''
                                    (data_get data ''bearing'' (PStr []))),
                         (''ts'', data_get data ''timestamp'' (PStr [])),
                         (''lu'', data_get data ''last_updated'' (PStr [])),
                         (''tid'', data_get data ''trip_id'' (PStr [])),
                         (''di'', data_get data ''direction_id'' (PStr [])),
                         (''sst'', data_get data ''scheduled_start_time'' (PStr [])),
                         (''set'', data_get data ''scheduled_end_time'' (PStr [])),
                         (''ast'', data_get data ''actual_start_time'' (PStr []))],
                       st))))"

text \<open>
  The inner \<open>try\<close> of \<open>get_vehicle_track\<close> at index \<open>i\<close>: the dictionary display is
  evaluated from left to right, so the score at \<open>i + 1\<close> is read last.
\<close>

definition track_point :: "python \<Rightarrow> pyval list \<Rightarrow> nat \<Rightarrow> exn + pydict" where
  "track_point bi track_data i =
     (case index track_data i of
        Inl e \<Rightarrow> Inl e
      | Inr member \<Rightarrow>
     (case py_json_loads bi member of
        Inl e \<Rightarrow> Inl e
      | Inr position \<Rightarrow>
     (case py_getitem position ''latitude'' of
        Inl e \<Rightarrow> Inl e
      | Inr la \<Rightarrow>
     (case py_float bi la of
        Inl e \<Rightarrow> Inl e
      | Inr lat \<Rightarrow>
     (case py_getitem position ''longitude'' of
        Inl e \<Rightarrow> Inl e
      | Inr lo \<Rightarrow>
     (case py_float bi lo of
        Inl e \<Rightarrow> Inl e
      | Inr lng \<Rightarrow>
     (case index track_data (i + 1) of
        Inl e \<Rightarrow> Inl e
      | Inr score \<Rightarrow>
     (case py_int bi score of
        Inl e \<Rightarrow> Inl e
      | Inr ts \<Rightarrow>
          Inr [(''lat'', PFloat lat), (''lng'', PFloat lng), (''timestamp'', PInt ts)]))))))))"

text \<open>\<open>range(0, n, 2)\<close>\<close>

definition range2 :: "nat \<Rightarrow> nat list" where
  "range2 n = map (\<lambda>j. 2 * j) [0 ..< (n + 1) div 2]"

fun parse_track :: "python \<Rightarrow> pyval list \<Rightarrow> nat list \<Rightarrow> pydict list \<Rightarrow> exn + pydict list" where
  "parse_track bi track_data [] track = Inr track"
| "parse_track bi track_data (i # is) track =
     (case track_point bi track_data i of
        Inl e \<Rightarrow>
          if e = JSONDecodeError \<or> e = KeyError \<or> is_ValueError e
          then parse_track bi track_data is track
          else Inl e
      | Inr p \<Rightarrow> parse_track bi track_data is (track @ [p]))"

definition track_error :: "exn \<Rightarrow> server \<Rightarrow> (exn + pydict list) \<times> server" where
  "track_error e st =
     (if is_Exception e then
        (Inl (HTTPException 500 ''Failed to fetch vehicle track''),
         print (PrintError ''Error fetching vehicle track: '' e) st)
      else (Inl e, st))"

definition get_vehicle_track :: "python \<Rightarrow> redis \<Rightarrow> string \<Rightarrow> server \<Rightarrow> (exn + pydict list) \<times> server" where
  "get_vehicle_track bi r vehicle_id st =
     (case redis_zrange r (''vehicle:'' @ vehicle_id @ '':track'') of
        Inl e \<Rightarrow> track_error e st
      | Inr track_data \<Rightarrow>
          if track_data = [] then (Inr [], st)
          else
            (case parse_track bi track_data (range2 (length track_data)) [] of
               Inl e \<Rightarrow> track_error e st
             | Inr track \<Rightarrow> (Inr track, st)))"

text \<open>\<open>get_stop_details\<close>: \<open>not stop_details\<close> holds of a missing id and of an empty dictionary.\<close>

definition get_stop_details :: "server \<Rightarrow> string \<Rightarrow> exn + pydict" where
  "get_stop_details st stop_id =
     (case map_of (stop_details_cache st) stop_id of
        None \<Rightarrow> Inl (HTTPException 404 ''Stop not found'')
      | Some stop_details \<Rightarrow>
          if stop_details = [] then Inl (HTTPException 404 ''Stop not found'')
          else Inr stop_details)"

section \<open>The reference catalog\<close>

text \<open>
  The tables that the queries read, with the columns they name. A cell that the code
  converts with \<open>float\<close> or hands on as it is holds a Python value, \<open>PNone\<close> for
  \<open>NULL\<close>; a column that a query tests with \<open>IS NOT NULL\<close> or that may be missing
  is optional. \<open>direction_id\<close> is an integer column: the query compares it with \<open>0\<close>
  and with \<open>'0'\<close>, which is the same test on integers.
\<close>

record stops_row =
  s_stop_id :: string
  s_stop_name :: pyval
  s_stop_lat :: pyval
  s_stop_lon :: pyval

record stop_times_row =
  st_trip_id :: string
  st_stop_id :: string
  st_stop_sequence :: int

record trips_row =
  t_trip_id :: string
  t_route_id :: string
  t_shape_id :: "string option"
  t_direction_id :: "int option"

record routes_row =
  r_route_id :: string
  r_route_short_name :: "string option"

record shapes_row =
  sh_shape_id :: string
  sh_shape_pt_lat :: pyval
  sh_shape_pt_lon :: pyval
  sh_shape_pt_sequence :: int

datatype statement = StopsCatalog | RouteShape string int | ShapePoints string

record database =
  stops :: "stops_row list"
  stop_times :: "stop_times_row list"
  trips :: "trips_row list"
  routes :: "routes_row list"
  shapes :: "shapes_row list"
  db_fault :: "statement \<Rightarrow> exn option"

text \<open>
  \<open>a LEFT JOIN b ON cond\<close> for one row of \<open>a\<close>: the matching rows of \<open>b\<close>, or one row
  of \<open>NULL\<close>s when there is none.
\<close>

definition left_join :: "('b \<Rightarrow> bool) \<Rightarrow> 'b list \<Rightarrow> 'b option list" where
  "left_join cond rows = (case filter cond rows of [] \<Rightarrow> [None] | ms \<Rightarrow> map Some ms)"

text \<open>
  The column \<open>r.route_short_name\<close> of the rows that the three \<open>LEFT JOIN\<close>s of the
  catalog query give for one row of \<open>stops\<close>; a \<open>NULL\<close>-padded row has \<open>NULL\<close> there.
\<close>

definition stop_route_names :: "database \<Rightarrow> string \<Rightarrow> string option list" where
  "stop_route_names db sid =
     concat (map (\<lambda>st.
       case st of
         None \<Rightarrow> [None]
       | Some st \<Rightarrow>
           concat (map (\<lambda>t.
             case t of
               None \<Rightarrow> [None]
             | Some t \<Rightarrow>
                 map (\<lambda>ro. case ro of None \<Rightarrow> None | Some ro \<Rightarrow> r_route_short_name ro)
                   (left_join (\<lambda>ro. r_route_id ro = t_route_id t) (routes db)))
             (left_join (\<lambda>t. t_trip_id t = st_trip_id st) (trips db))))
       (left_join (\<lambda>st. st_stop_id st = sid) (stop_times db)))"

text \<open>The values joined with the separator between them.\<close>

fun string_agg :: "string \<Rightarrow> string list \<Rightarrow> string" where
  "string_agg sep [] = []"
| "string_agg sep [x] = x"
| "string_agg sep (x # y # ys) = x @ sep @ string_agg sep (y # ys)"

text \<open>
  \<open>STRING_AGG(DISTINCT x, ', ' ORDER BY x)\<close> over the values of a group: \<open>NULL\<close>s are
  left out, and the result is \<open>NULL\<close> when nothing is left. Strings are ordered
  character by character.
\<close>

definition string_agg_distinct :: "string option list \<Rightarrow> string option" where
  "string_agg_distinct vals =
     (case sort (remdups (List.map_filter (\<lambda>v. v) vals)) of
        [] \<Rightarrow> None
      | names \<Rightarrow> Some (string_agg '', '' names))"

text \<open>
  The catalog query: the rows of \<open>stops\<close> with both coordinates, grouped by the four
  selected columns, each group with the aggregate over its joined rows. The rows come in
  the order in which the groups first appear.
\<close>

definition group_key :: "stops_row \<Rightarrow> string \<times> pyval \<times> pyval \<times> pyval" where
  "group_key s = (s_stop_id s, s_stop_name s, s_stop_lat s, s_stop_lon s)"

definition stops_query :: "database \<Rightarrow> exn + ((string \<times> pyval \<times> pyval \<times> pyval) \<times> string option) list" where
  "stops_query db =
     (case db_fault db StopsCatalog of
        Some e \<Rightarrow> Inl e
      | None \<Rightarrow>
          (let located = filter (\<lambda>s. s_stop_lat s \<noteq> PNone \<and> s_stop_lon s \<noteq> PNone) (stops db)
           in Inr (map (\<lambda>k.
                     (k, string_agg_distinct
                           (concat (map (\<lambda>s. stop_route_names db (s_stop_id s))
                                      (filter (\<lambda>s. group_key s = k) located)))))
                   (remdups (map group_key located)))))"

text \<open>\<open>row['routes'] or ''\<close>\<close>

definition routes_or_empty :: "string option \<Rightarrow> pyval" where
  "routes_or_empty agg = (case agg of None \<Rightarrow> PStr [] | Some s \<Rightarrow> PStr s)"

text \<open>The list comprehension that builds \<open>stops_cache\<close>: a \<open>float\<close> that raises ends it.\<close>

fun stops_list :: "python \<Rightarrow> ((string \<times> pyval \<times> pyval \<times> pyval) \<times> string option) list \<Rightarrow> exn + pydict list" where
  "stops_list bi [] = Inr []"
| "stops_list bi (((sid, name, lat, lon), agg) # rows) =
     (case py_float bi lat of
        Inl e \<Rightarrow> Inl e
      | Inr la \<Rightarrow>
          (case py_float bi lon of
             Inl e \<Rightarrow> Inl e
           | Inr lo \<Rightarrow>
               (case stops_list bi rows of
                  Inl e \<Rightarrow> Inl e
                | Inr rest \<Rightarrow>
                    Inr ([(''id'', PStr sid), (''lat'', PFloat la), (''lng'', PFloat lo),
                          (''routes'', routes_or_empty agg)] # rest))))"

text \<open>
  The dictionary comprehension that builds \<open>stop_details_cache\<close>: a later row replaces
  an earlier one with the same \<open>stop_id\<close>, so the rows are listed last first.
\<close>

definition stops_dict :: "((string \<times> pyval \<times> pyval \<times> pyval) \<times> string option) list \<Rightarrow> (string \<times> pydict) list" where
  "stops_dict rows =
     map (\<lambda>((sid, name, lat, lon), agg).
            (sid, [(''stop_id'', PStr sid), (''stop_name'', name),
                   (''routes'', routes_or_empty agg)]))
       (rev rows)"

definition load_and_cache_stops :: "python \<Rightarrow> database \<Rightarrow> server \<Rightarrow> exn option \<times> server" where
  "load_and_cache_stops bi db st =
     (let st1 = print (Print ''Loading bus stops from database...'') st in
      case stops_query db of
        Inl e \<Rightarrow> on_error ''Error loading stops: '' e st1
      | Inr rows \<Rightarrow>
          (case stops_list bi rows of
             Inl e \<Rightarrow> on_error ''Error loading stops: '' e st1
           | Inr cache \<Rightarrow>
               (None,
                print (PrintCount ''Cached '' (length cache) '' bus stops'')
                  (st1\<lparr>stops_cache := cache, stop_details_cache := stops_dict rows\<rparr>))))"

text \<open>
  The query of \<open>get_shapes_for_route\<close> for one direction, before \<open>ORDER BY\<close> and
  \<open>LIMIT\<close>: one row for each \<open>shape_id\<close> of the joined rows, with the number of joined
  rows that have it.
\<close>

definition route_shape_rows :: "database \<Rightarrow> string \<Rightarrow> int \<Rightarrow> string list" where
  "route_shape_rows db route_short_name d =
     [sh_shape_id s.
        t \<leftarrow> trips db,
        ro \<leftarrow> routes db, r_route_id ro = t_route_id t,
        s \<leftarrow> shapes db, t_shape_id t = Some (sh_shape_id s),
        r_route_short_name ro = Some route_short_name,
        t_shape_id t \<noteq> None,
        t_direction_id t = Some d]"

definition route_shape_groups :: "database \<Rightarrow> string \<Rightarrow> int \<Rightarrow> (string \<times> nat) list" where
  "route_shape_groups db route_short_name d =
     (let joined = route_shape_rows db route_short_name d
      in map (\<lambda>sid. (sid, count_list joined sid)) (remdups joined))"

text \<open>
  \<open>ORDER BY point_count DESC LIMIT 1\<close> read with \<open>fetchrow\<close>: a row with the largest
  count, the first such group when several have it.
\<close>

definition route_shape_query :: "database \<Rightarrow> string \<Rightarrow> int \<Rightarrow> exn + (string \<times> nat) option" where
  "route_shape_query db route_short_name d =
     (case db_fault db (RouteShape route_short_name d) of
        Some e \<Rightarrow> Inl e
      | None \<Rightarrow>
          (case sort_key (\<lambda>g. - int (snd g)) (route_shape_groups db route_short_name d) of
             [] \<Rightarrow> Inr None
           | g # gs \<Rightarrow> Inr (Some g)))"

definition points_query :: "database \<Rightarrow> string \<Rightarrow> exn + shapes_row list" where
  "points_query db shape_id =
     (case db_fault db (ShapePoints shape_id) of
        Some e \<Rightarrow> Inl e
      | None \<Rightarrow>
          Inr (sort_key sh_shape_pt_sequence (filter (\<lambda>s. sh_shape_id s = shape_id) (shapes db))))"

text \<open>\<open>[[float(p['shape_pt_lat']), float(p['shape_pt_lon'])] for p in points]\<close>\<close>

fun points_list :: "python \<Rightarrow> shapes_row list \<Rightarrow> exn + pyval list" where
  "points_list bi [] = Inr []"
| "points_list bi (p # ps) =
     (case py_float bi (sh_shape_pt_lat p) of
        Inl e \<Rightarrow> Inl e
      | Inr la \<Rightarrow>
          (case py_float bi (sh_shape_pt_lon p) of
             Inl e \<Rightarrow> Inl e
           | Inr lo \<Rightarrow>
               (case points_list bi ps of
                  Inl e \<Rightarrow> Inl e
                | Inr rest \<Rightarrow> Inr (PList [PFloat la, PFloat lo] # rest))))"

text \<open>One of the two blocks of \<open>get_shapes_for_route\<close>: the list \<open>all_shapes\<close> after it.\<close>

definition shape_block :: "python \<Rightarrow> database \<Rightarrow> string \<Rightarrow> int \<Rightarrow> pydict list \<Rightarrow> exn + pydict list" where
  "shape_block bi db route_short_name d all_shapes =
     (case route_shape_query db route_short_name d of
        Inl e \<Rightarrow> Inl e
      | Inr None \<Rightarrow> Inr all_shapes
      | Inr (Some (shape_id, point_count)) \<Rightarrow>
          (case points_query db shape_id of
             Inl e \<Rightarrow> Inl e
           | Inr points \<Rightarrow>
               if points = [] then Inr all_shapes
               else
                 (case points_list bi points of
                    Inl e \<Rightarrow> Inl e
                  | Inr ps \<Rightarrow>
                      Inr (all_shapes @ [[(''points'', PList ps), (''direction'', PInt d)]]))))"

definition shapes_error :: "exn \<Rightarrow> server \<Rightarrow> (exn + pydict list) \<times> server" where
  "shapes_error e st =
     (if is_Exception e then
        (Inl (HTTPException 500 ''Failed to fetch shapes''),
         print (PrintError ''Error fetching shapes for route: '' e) st)
      else (Inl e, st))"

definition get_shapes_for_route :: "python \<Rightarrow> database \<Rightarrow> string \<Rightarrow> server \<Rightarrow> (exn + pydict list) \<times> server" where
  "get_shapes_for_route bi db route_short_name st =
     (case shape_block bi db route_short_name 0 [] of
        Inl e \<Rightarrow> shapes_error e st
      | Inr all_shapes \<Rightarrow>
          (case shape_block bi db route_short_name 1 all_shapes of
             Inl e \<Rightarrow> shapes_error e st
           | Inr all_shapes \<Rightarrow> (Inr all_shapes, st)))"

section \<open>What the specification says, in its own words\<close>

subsection \<open>The snapshot\<close>

text \<open>
  The position keys of the store: the keys under the pattern \<open>vehicle:*\<close> that are not
  history sub-keys. The history of a vehicle is kept under the key of the vehicle followed
  by \<open>:track\<close>.
\<close>

definition position_keys :: "redis \<Rightarrow> string list" where
  "position_keys r =
     filter (\<lambda>key. matches ''vehicle:*'' key \<and> \<not> suffix '':track'' key) (keyspace r)"

text \<open>The field is there, parses as a floating-point number, and the number is not zero.\<close>

definition parses_nonzero :: "python \<Rightarrow> (string \<times> string) list \<Rightarrow> string \<Rightarrow> bool" where
  "parses_nonzero bi data field =
     (case map_of data field of
        None \<Rightarrow> False
      | Some s \<Rightarrow> (case float_of_str bi s of None \<Rightarrow> False | Some x \<Rightarrow> x \<noteq> FNum 0))"

text \<open>The filter law: status \<open>active\<close>, and both coordinates parse and are not zero.\<close>

definition filter_law :: "python \<Rightarrow> (string \<times> string) list \<Rightarrow> bool" where
  "filter_law bi data =
     (map_of data ''status'' = Some ''active'' \<and>
      parses_nonzero bi data ''latitude'' \<and> parses_nonzero bi data ''longitude'')"

definition field_or :: "(string \<times> string) list \<Rightarrow> string \<Rightarrow> string \<Rightarrow> string" where
  "field_or data k dflt = (case map_of data k of None \<Rightarrow> dflt | Some v \<Rightarrow> v)"

text \<open>
  The compact projection of a record that passes the filter: the bearing is the adjusted
  field if present, else the raw bearing, else the literal \<open>0\<close>.
\<close>

definition projection :: "python \<Rightarrow> string \<Rightarrow> (string \<times> string) list \<Rightarrow> pydict" where
  "projection bi key data =
     [(''id'', PStr (split CHR '':'' key ! 1)),
      (''lat'', PFloat (the (float_of_str bi (the (map_of data ''latitude''))))),
      (''lng'', PFloat (the (float_of_str bi (the (map_of data ''longitude''))))),
      (''rsn'', PStr (field_or data ''route_short_name'' ''N/A'')),
      (''lp'', PStr (field_or data ''license_plate'' [])),
      (''tid'', PStr (field_or data ''trip_id'' [])),
      (''br'', PStr (field_or data ''two_shape_bearing'' (field_or data ''bearing'' ''0'')))]"

subsection \<open>The periodic task\<close>

text \<open>
  A turn of the periodic task in which the pause and the store raise nothing but a
  cancellation or an error of the backend.
\<close>

definition cancel_or_error :: "exn \<Rightarrow> bool" where
  "cancel_or_error e = (e = CancelledError \<or> is_Exception e)"

definition turn_ok :: "cycle \<Rightarrow> bool" where
  "turn_ok c =
     ((case sleep_raises c of None \<Rightarrow> True | Some e \<Rightarrow> cancel_or_error e) \<and>
      (\<forall>cmd e. fault (backend c) cmd = Some e \<longrightarrow> cancel_or_error e))"

subsection \<open>Vehicle detail\<close>

text \<open>
  The coordinate of a detail object: \<open>0.0\<close> for a missing field, the parsed number for a
  field that parses, and none for a field that does not.
\<close>

definition coordinate :: "python \<Rightarrow> (string \<times> string) list \<Rightarrow> string \<Rightarrow> pyfloat option" where
  "coordinate bi data field =
     (case map_of data field of None \<Rightarrow> Some (FNum 0) | Some s \<Rightarrow> float_of_str bi s)"

subsection \<open>The push channel\<close>

text \<open>
  The clients that are connected to the default namespace: the session ids in its room
  \<open>None\<close>. The connection count is their number.
\<close>

definition connected :: "server \<Rightarrow> string list" where
  "connected st =
     (case map_of (rooms st) ''/'' of
        None \<Rightarrow> []
      | Some d \<Rightarrow> (case map_of d None of None \<Rightarrow> [] | Some sids \<Rightarrow> sids))"

definition connection_count :: "server \<Rightarrow> nat" where
  "connection_count st = length (connected st)"

subsection \<open>Track history\<close>

text \<open>
  The track point of a valid entry of a history, an entry being a member with its score:
  the member decodes to an object that has a latitude and a longitude, both of which
  convert to a float, and the timestamp is the score. There is none for a malformed entry.
\<close>

definition entry_point :: "python \<Rightarrow> string \<times> real \<Rightarrow> pydict option" where
  "entry_point bi entry =
     (case json_loads bi (fst entry) of
        Some (PDict kvs) \<Rightarrow>
          (case map_of kvs ''latitude'' of
             None \<Rightarrow> None
           | Some la \<Rightarrow>
          (case map_of kvs ''longitude'' of
             None \<Rightarrow> None
           | Some lo \<Rightarrow>
          (case py_float bi la of
             Inl e \<Rightarrow> None
           | Inr lat \<Rightarrow>
          (case py_float bi lo of
             Inl e \<Rightarrow> None
           | Inr lng \<Rightarrow>
               Some [(''lat'', PFloat lat), (''lng'', PFloat lng),
                     (''timestamp'', PInt \<lfloor>snd entry\<rfloor>)]))))
      | _ \<Rightarrow> None)"

text \<open>The points of the valid entries of a history, in the order of the history.\<close>

definition valid_points :: "python \<Rightarrow> (string \<times> real) list \<Rightarrow> pydict list" where
  "valid_points bi h = concat (map (\<lambda>entry. case entry_point bi entry of None \<Rightarrow> [] | Some p \<Rightarrow> [p]) h)"

subsection \<open>The stop catalog\<close>

text \<open>
  The short names of the routes that serve a stop, through stop time, trip and route, and
  the label made of them: without repetition, in order, joined by a comma and a space.
\<close>

definition serving_routes :: "database \<Rightarrow> string \<Rightarrow> string list" where
  "serving_routes db sid =
     [n. st \<leftarrow> stop_times db, st_stop_id st = sid,
         t \<leftarrow> trips db, t_trip_id t = st_trip_id st,
         ro \<leftarrow> routes db, r_route_id ro = t_route_id t,
         n \<leftarrow> (case r_route_short_name ro of None \<Rightarrow> [] | Some n \<Rightarrow> [n])]"

definition route_label :: "database \<Rightarrow> string \<Rightarrow> string" where
  "route_label db sid = string_agg '', '' (sorted_list_of_set (set (serving_routes db sid)))"

text \<open>A stop with both coordinates.\<close>

definition located :: "stops_row \<Rightarrow> bool" where
  "located s = (s_stop_lat s \<noteq> PNone \<and> s_stop_lon s \<noteq> PNone)"

subsection \<open>Shapes of a route\<close>

text \<open>
  The trips of a route in a direction that use a shape (one for each route row that the
  trip joins), and the points of a shape.
\<close>

definition trips_using :: "database \<Rightarrow> string \<Rightarrow> int \<Rightarrow> string \<Rightarrow> nat" where
  "trips_using db route_short_name d shape_id =
     length [t. t \<leftarrow> trips db, ro \<leftarrow> routes db, r_route_id ro = t_route_id t,
                r_route_short_name ro = Some route_short_name,
                t_direction_id t = Some d, t_shape_id t = Some shape_id]"

definition points_of :: "database \<Rightarrow> string \<Rightarrow> nat" where
  "points_of db shape_id = length (filter (\<lambda>s. sh_shape_id s = shape_id) (shapes db))"

section \<open>Sample data\<close>

text \<open>
  The runtime parsers as far as the samples need them: on the strings listed they give
  what Python gives, and they accept no other string. Among the strings that the
  samples use and that are not listed, \<open>abc\<close> is no number and \<open>point3\<close> is no JSON.
\<close>

definition point1 :: string where
  \<open>point1 = ''{"latitude": 38.71, "longitude": -9.13}''\<close>

definition point2 :: string where
  \<open>point2 = ''{"latitude": 38.72, "longitude": -9.14}''\<close>

definition point3 :: string where
  \<open>point3 = ''{"latitude": 38.7''\<close>

definition point4 :: string where
  \<open>point4 = ''{"latitude": "38.74", "longitude": "-9.16"}''\<close>

definition point5 :: string where
  \<open>point5 = ''{"latitude": 38.75, "longitude": -9.17}''\<close>

definition sample_python :: python where
  "sample_python =
     \<lparr>float_of_str = map_of
        [(''38.72'', FNum 38.72), (''-9.14'', FNum (- 9.14)),
         (''38.74'', FNum 38.74), (''-9.16'', FNum (- 9.16)),
         (''0'', FNum 0), (''0.0'', FNum 0)],
      int_of_str = map_of
        [(''1700000000'', 1700000000), (''1700000030'', 1700000030),
         (''1700000060'', 1700000060), (''1700000090'', 1700000090),
         (''1700000120'', 1700000120)],
      json_loads = map_of
        [(point1, PDict [(''latitude'', PFloat (FNum 38.71)), (''longitude'', PFloat (FNum (- 9.13)))]),
         (point2, PDict [(''latitude'', PFloat (FNum 38.72)), (''longitude'', PFloat (FNum (- 9.14)))]),
         (point4, PDict [(''latitude'', PStr ''38.74''), (''longitude'', PStr ''-9.16'')]),
         (point5, PDict [(''latitude'', PFloat (FNum 38.75)), (''longitude'', PFloat (FNum (- 9.17)))])]\<rparr>"

text \<open>
  A store with an active vehicle, an inactive one, one at latitude zero, one whose latitude
  does not parse, one without a latitude, the history of the first, and a foreign key.
\<close>

definition sample_history :: "(string \<times> real) list" where
  "sample_history =
     [(point1, 1700000000), (point2, 1700000030), (point3, 1700000060),
      (point4, 1700000090), (point5, 1700000120)]"

definition sample_hash :: "string \<Rightarrow> (string \<times> string) list" where
  "sample_hash key =
     (if key = ''vehicle:101'' then
        [(''status'', ''active''), (''latitude'', ''38.72''), (''longitude'', ''-9.14''),
         (''route_short_name'', ''728''), (''license_plate'', ''AA-01-BB''),
         (''trip_id'', ''T1''), (''bearing'', ''90'')]
      else if key = ''vehicle:102'' then
        [(''status'', ''inactive''), (''latitude'', ''38.74''), (''longitude'', ''-9.16'')]
      else if key = ''vehicle:103'' then
        [(''status'', ''active''), (''latitude'', ''0''), (''longitude'', ''-9.14'')]
      else if key = ''vehicle:104'' then
        [(''status'', ''active''), (''latitude'', ''abc''), (''longitude'', ''-9.14'')]
      else if key = ''vehicle:105'' then
        [(''status'', ''inactive''), (''longitude'', ''-9.16'')]
      else [])"

definition sample_redis :: redis where
  "sample_redis =
     \<lparr>keyspace = [''vehicle:101'', ''vehicle:101:track'', ''vehicle:102'', ''vehicle:103'',
                  ''vehicle:104'', ''vehicle:105'', ''session:9''],
      hash_at = sample_hash,
      zset_at = (\<lambda>key. if key = ''vehicle:101:track'' then sample_history else []),
      fault = (\<lambda>c. None)\<rparr>"

text \<open>The same store when the read of the second vehicle times out.\<close>

definition failing_redis :: redis where
  "failing_redis =
     sample_redis\<lparr>fault :=
       (\<lambda>c. if c = HGETALL ''vehicle:102'' then Some (RedisError ''timeout'') else None)\<rparr>"

text \<open>
  A store with two vehicles, both active and with coordinates. The id of the second begins
  with \<open>track\<close>.
\<close>

definition tracker_hash :: "string \<Rightarrow> (string \<times> string) list" where
  "tracker_hash key =
     (if key = ''vehicle:tracker7'' then
        [(''status'', ''active''), (''latitude'', ''38.74''), (''longitude'', ''-9.16'')]
      else sample_hash key)"

definition tracker_redis :: redis where
  "tracker_redis =
     \<lparr>keyspace = [''vehicle:101'', ''vehicle:101:track'', ''vehicle:tracker7''],
      hash_at = tracker_hash,
      zset_at = (\<lambda>key. []),
      fault = (\<lambda>c. None)\<rparr>"

text \<open>A store without keys.\<close>

definition empty_redis :: redis where
  "empty_redis =
     \<lparr>keyspace = [], hash_at = (\<lambda>key. []), zset_at = (\<lambda>key. []), fault = (\<lambda>c. None)\<rparr>"

text \<open>A store whose only vehicle is inactive.\<close>

definition idle_redis :: redis where
  "idle_redis =
     \<lparr>keyspace = [''vehicle:102''], hash_at = sample_hash, zset_at = (\<lambda>key. []),
      fault = (\<lambda>c. None)\<rparr>"

text \<open>
  A server that has published one vehicle and has two clients: the registry is the one
  that the manager builds when \<open>sid1\<close> and then \<open>sid2\<close> connect.
\<close>

definition sample_server :: server where
  "sample_server =
     \<lparr>vehicle_cache =
        [[(''id'', PStr ''77''), (''lat'', PFloat (FNum 38.7)), (''lng'', PFloat (FNum (- 9.1))),
          (''rsn'', PStr ''15E''), (''lp'', PStr []), (''tid'', PStr []), (''br'', PStr ''0'')]],
      stops_cache = [],
      stop_details_cache =
        [(''S1'', [(''stop_id'', PStr ''S1''), (''stop_name'', PStr ''Rossio''),
                   (''routes'', PStr ''A, B, C'')])],
      rooms =
        [(''/'', [(None, [''sid1'', ''sid2'']), (Some ''sid1'', [''sid1'']),
                  (Some ''sid2'', [''sid2''])])],
      emitted = [],
      printed = []\<rparr>"

text \<open>
  A catalog in which stop \<open>S1\<close> is served by the routes \<open>B\<close>, \<open>A\<close>, \<open>C\<close> and once more
  by \<open>A\<close>, stop \<open>S2\<close> by no route, and stop \<open>S3\<close> has no latitude.
\<close>

definition sample_db :: database where
  "sample_db =
     \<lparr>stops =
        [\<lparr>s_stop_id = ''S1'', s_stop_name = PStr ''Rossio'',
          s_stop_lat = PFloat (FNum 38.71), s_stop_lon = PFloat (FNum (- 9.13))\<rparr>,
         \<lparr>s_stop_id = ''S2'', s_stop_name = PStr ''Cais'',
          s_stop_lat = PFloat (FNum 38.72), s_stop_lon = PFloat (FNum (- 9.14))\<rparr>,
         \<lparr>s_stop_id = ''S3'', s_stop_name = PStr ''Graca'',
          s_stop_lat = PNone, s_stop_lon = PFloat (FNum (- 9.15))\<rparr>],
      stop_times =
        [\<lparr>st_trip_id = ''T1'', st_stop_id = ''S1'', st_stop_sequence = 1\<rparr>,
         \<lparr>st_trip_id = ''T2'', st_stop_id = ''S1'', st_stop_sequence = 4\<rparr>,
         \<lparr>st_trip_id = ''T3'', st_stop_id = ''S1'', st_stop_sequence = 2\<rparr>,
         \<lparr>st_trip_id = ''T4'', st_stop_id = ''S1'', st_stop_sequence = 7\<rparr>,
         \<lparr>st_trip_id = ''T1'', st_stop_id = ''S3'', st_stop_sequence = 2\<rparr>],
      trips =
        [\<lparr>t_trip_id = ''T1'', t_route_id = ''RB'', t_shape_id = None, t_direction_id = Some 0\<rparr>,
         \<lparr>t_trip_id = ''T2'', t_route_id = ''RA'', t_shape_id = None, t_direction_id = Some 0\<rparr>,
         \<lparr>t_trip_id = ''T3'', t_route_id = ''RC'', t_shape_id = None, t_direction_id = Some 1\<rparr>,
         \<lparr>t_trip_id = ''T4'', t_route_id = ''RA'', t_shape_id = None, t_direction_id = Some 1\<rparr>],
      routes =
        [\<lparr>r_route_id = ''RA'', r_route_short_name = Some ''A''\<rparr>,
         \<lparr>r_route_id = ''RB'', r_route_short_name = Some ''B''\<rparr>,
         \<lparr>r_route_id = ''RC'', r_route_short_name = Some ''C''\<rparr>],
      shapes = [],
      db_fault = (\<lambda>q. None)\<rparr>"

text \<open>
  A route whose trips in direction 0 use two shapes: one trip uses \<open>S1\<close>, which has 40
  points, and five trips use \<open>S2\<close>, which has 10 points.
\<close>

definition shape_rows :: "string \<Rightarrow> real \<Rightarrow> nat \<Rightarrow> shapes_row list" where
  "shape_rows shape_id lat n =
     map (\<lambda>i. \<lparr>sh_shape_id = shape_id, sh_shape_pt_lat = PFloat (FNum lat),
               sh_shape_pt_lon = PFloat (FNum (- 9)), sh_shape_pt_sequence = int i\<rparr>)
       [0 ..< n]"

definition trip_on :: "string \<Rightarrow> string \<Rightarrow> trips_row" where
  "trip_on trip_id shape_id =
     \<lparr>t_trip_id = trip_id, t_route_id = ''R1'', t_shape_id = Some shape_id,
      t_direction_id = Some 0\<rparr>"

definition two_shapes_db :: database where
  "two_shapes_db =
     \<lparr>stops = [],
      stop_times = [],
      trips =
        [trip_on ''T1'' ''S1'', trip_on ''T2'' ''S2'', trip_on ''T3'' ''S2'',
         trip_on ''T4'' ''S2'', trip_on ''T5'' ''S2'', trip_on ''T6'' ''S2''],
      routes = [\<lparr>r_route_id = ''R1'', r_route_short_name = Some ''728''\<rparr>],
      shapes = shape_rows ''S1'' 1 40 @ shape_rows ''S2'' 2 10,
      db_fault = (\<lambda>q. None)\<rparr>"

section \<open>The refresh cycle: properties\<close>

subsection \<open>Keys, fields and one record\<close>

lemma split_not_Nil: "split sep s \<noteq> []"
  by (induction s) (auto split: list.splits)

lemma split_vehicle_key:
  assumes "matches ''vehicle:*'' key"
  shows "index (split CHR '':'' key) 1 = Inr (split CHR '':'' key ! 1)"
proof -
  from assms obtain rest where k: "key = ''vehicle:'' @ rest"
    by (auto simp: matches_def prefix_def)
  obtain w ws where "split CHR '':'' rest = w # ws"
    using split_not_Nil [of "CHR '':''" rest] by (cases "split CHR '':'' rest") auto
  then have "1 < length (split CHR '':'' key)"
    by (simp add: k)
  then show ?thesis by (simp add: index_def)
qed

lemma data_get_str: "data_get data k (PStr d) = PStr (field_or data k d)"
  by (simp add: data_get_def field_or_def split: option.splits)

lemma py_float_zero: "py_float bi (PInt 0) = Inr (FNum 0)"
  by simp

lemma float_field:
  "py_float bi (data_get data f (PInt 0)) =
     (case map_of data f of
        None \<Rightarrow> Inr (FNum 0)
      | Some s \<Rightarrow> (case float_of_str bi s of None \<Rightarrow> Inl ValueError | Some x \<Rightarrow> Inr x))"
  by (simp add: data_get_def py_float_zero split: option.splits)

lemma float_field_Inl:
  "py_float bi (data_get data f (PInt 0)) = Inl e \<Longrightarrow> e = ValueError \<and> \<not> parses_nonzero bi data f"
  by (auto simp: float_field parses_nonzero_def split: option.splits)

lemma float_field_Inr:
  "py_float bi (data_get data f (PInt 0)) = Inr x \<Longrightarrow> parses_nonzero bi data f = truthy x"
  by (auto simp: float_field parses_nonzero_def truthy_def split: option.splits)

lemma float_field_the:
  "parses_nonzero bi data f \<Longrightarrow>
     py_float bi (data_get data f (PInt 0)) = Inr (the (float_of_str bi (the (map_of data f))))"
  by (auto simp: float_field parses_nonzero_def split: option.splits)

lemma vehicle_entry_pass:
  assumes "parses_nonzero bi data ''latitude''" and "parses_nonzero bi data ''longitude''"
  shows "vehicle_entry bi (split CHR '':'' key ! 1) data = Inr (Some (projection bi key data))"
proof -
  let ?lat = "the (float_of_str bi (the (map_of data ''latitude'')))"
  let ?lng = "the (float_of_str bi (the (map_of data ''longitude'')))"
  have la: "py_float bi (data_get data ''latitude'' (PInt 0)) = Inr ?lat"
    using assms(1) by (rule float_field_the)
  have lo: "py_float bi (data_get data ''longitude'' (PInt 0)) = Inr ?lng"
    using assms(2) by (rule float_field_the)
  have "truthy ?lat" "truthy ?lng"
    using float_field_Inr [OF la] float_field_Inr [OF lo] assms by simp_all
  then show ?thesis
    unfolding vehicle_entry_def la lo projection_def data_get_str by simp
qed

lemma vehicle_entry_fail:
  assumes "\<not> (parses_nonzero bi data ''latitude'' \<and> parses_nonzero bi data ''longitude'')"
  shows "vehicle_entry bi vid data = Inr None \<or> vehicle_entry bi vid data = Inl ValueError"
proof (cases "py_float bi (data_get data ''latitude'' (PInt 0))")
  case (Inl e)
  then show ?thesis
    using float_field_Inl [OF Inl] by (simp add: vehicle_entry_def)
next
  case la: (Inr lat)
  show ?thesis
  proof (cases "py_float bi (data_get data ''longitude'' (PInt 0))")
    case (Inl e)
    then show ?thesis
      using float_field_Inl [OF Inl] by (simp add: vehicle_entry_def la)
  next
    case lo: (Inr lng)
    have "\<not> (truthy lat \<and> truthy lng)"
      using assms float_field_Inr [OF la] float_field_Inr [OF lo] by simp
    then show ?thesis
      by (simp add: vehicle_entry_def la lo)
  qed
qed

subsection \<open>The loop over the keys\<close>

lemma scan_vehicles_law:
  assumes "\<forall>key \<in> set keys. fault r (HGETALL key) = None \<and> matches ''vehicle:*'' key"
  shows "scan_vehicles bi r keys vehicles =
           Inr (vehicles @ map (\<lambda>key. projection bi key (hash_at r key))
                             (filter (\<lambda>key. filter_law bi (hash_at r key)) keys))"
  using assms
proof (induction keys arbitrary: vehicles)
  case Nil
  then show ?case by simp
next
  case (Cons key keys)
  let ?data = "hash_at r key"
  have ix: "index (split CHR '':'' key) 1 = Inr (split CHR '':'' key ! 1)"
    using Cons.prems split_vehicle_key [of key] by simp
  have hg: "redis_hgetall r key = Inr ?data"
    using Cons.prems by (simp add: redis_hgetall_def)
  have IH: "\<And>vs. scan_vehicles bi r keys vs =
           Inr (vs @ map (\<lambda>key. projection bi key (hash_at r key))
                             (filter (\<lambda>key. filter_law bi (hash_at r key)) keys))"
    using Cons by simp
  have step: "scan_vehicles bi r (key # keys) vehicles =
      (if ?data = [] then scan_vehicles bi r keys vehicles
       else if map_of ?data ''status'' \<noteq> Some ''active'' then scan_vehicles bi r keys vehicles
       else (case vehicle_entry bi (split CHR '':'' key ! 1) ?data of
                      Inl e \<Rightarrow>
                        if is_ValueError e \<or> e = TypeError then scan_vehicles bi r keys vehicles
                        else Inl e
                    | Inr None \<Rightarrow> scan_vehicles bi r keys vehicles
                    | Inr (Some v) \<Rightarrow> scan_vehicles bi r keys (vehicles @ [v])))"
    by (simp only: scan_vehicles.simps hg ix sum.case)
  show ?case
  proof (cases "filter_law bi ?data")
    case True
    then have ne: "?data \<noteq> []" and act: "map_of ?data ''status'' = Some ''active''"
      by (auto simp: filter_law_def)
    have "vehicle_entry bi (split CHR '':'' key ! 1) ?data
        = Inr (Some (projection bi key ?data))"
      by (rule vehicle_entry_pass) (use True in \<open>simp_all add: filter_law_def\<close>)
    then show ?thesis
      using True by (subst step) (simp add: ne act IH del: One_nat_def)
  next
    case False
    show ?thesis
    proof (cases "?data = [] \<or> map_of ?data ''status'' \<noteq> Some ''active''")
      case True
      then show ?thesis using False by (subst step) (auto simp: IH simp del: One_nat_def)
    next
      case F2: False
      with False have "\<not> (parses_nonzero bi ?data ''latitude'' \<and> parses_nonzero bi ?data ''longitude'')"
        by (simp add: filter_law_def)
      from vehicle_entry_fail [OF this, of "split CHR '':'' key ! 1"]
      show ?thesis using False F2
        by (subst step) (auto simp: IH is_ValueError_def simp del: One_nat_def)
    qed
  qed
qed

lemma scan_vehicles_fault:
  assumes "\<forall>key \<in> set keys. matches ''vehicle:*'' key"
    and "key \<in> set keys" and "fault r (HGETALL key) \<noteq> None"
  shows "\<exists>k e. k \<in> set keys \<and> fault r (HGETALL k) = Some e \<and> scan_vehicles bi r keys vehicles = Inl e"
  using assms
proof (induction keys arbitrary: vehicles)
  case Nil
  then show ?case by simp
next
  case (Cons k keys)
  show ?case
  proof (cases "fault r (HGETALL k)")
    case (Some e)
    then have "scan_vehicles bi r (k # keys) vehicles = Inl e"
      by (simp add: redis_hgetall_def)
    with Some show ?thesis by auto
  next
    case None
    with Cons.prems have in_rest: "key \<in> set keys" by auto
    have m: "\<forall>key \<in> set keys. matches ''vehicle:*'' key" using Cons.prems by simp
    have IH: "\<And>vs. \<exists>k e. k \<in> set keys \<and> fault r (HGETALL k) = Some e \<and> scan_vehicles bi r keys vs = Inl e"
      using Cons.IH [OF m in_rest Cons.prems(3)] by simp
    let ?data = "hash_at r k"
    have ix: "index (split CHR '':'' k) 1 = Inr (split CHR '':'' k ! 1)"
      using Cons.prems split_vehicle_key [of k] by simp
    have hg: "redis_hgetall r k = Inr ?data"
      using None by (simp add: redis_hgetall_def)
    have "\<exists>vs. scan_vehicles bi r (k # keys) vehicles = scan_vehicles bi r keys vs"
    proof (cases "vehicle_entry bi (split CHR '':'' k ! 1) ?data")
      case (Inl e)
      have "vehicle_entry bi (split CHR '':'' k ! 1) ?data = Inr None \<or>
            vehicle_entry bi (split CHR '':'' k ! 1) ?data = Inl ValueError \<or>
            (\<exists>v. vehicle_entry bi (split CHR '':'' k ! 1) ?data = Inr (Some v))"
        using vehicle_entry_fail [of bi ?data] vehicle_entry_pass [of bi ?data ]
        by blast
      with Inl have "e = ValueError" by auto
      with Inl show ?thesis
        by (auto simp only: scan_vehicles.simps hg ix sum.case is_ValueError_def split: if_splits)
    next
      case (Inr ov)
      then show ?thesis
        by (cases ov) (auto simp only: scan_vehicles.simps hg ix sum.case option.case split: if_splits)
    qed
    then obtain vs where "scan_vehicles bi r (k # keys) vehicles = scan_vehicles bi r keys vs" ..
    with IH [of vs] show ?thesis by auto
  qed
qed

lemma vehicle_entry_raises: "vehicle_entry bi vid data = Inl e \<Longrightarrow> e = ValueError"
  by (auto simp: vehicle_entry_def float_field split: option.splits sum.splits if_splits)

lemma scan_vehicles_raises:
  "scan_vehicles bi r keys vehicles = Inl e \<Longrightarrow>
     is_Exception e \<or> (\<exists>key. fault r (HGETALL key) = Some e)"
proof (induction keys arbitrary: vehicles)
  case Nil
  then show ?case by simp
next
  case (Cons key keys)
  show ?case
  proof (cases "redis_hgetall r key")
    case (Inl e')
    with Cons.prems have "e' = e" by simp
    with Inl have "fault r (HGETALL key) = Some e"
      by (auto simp: redis_hgetall_def split: option.splits)
    then show ?thesis by blast
  next
    case data: (Inr data)
    show ?thesis
    proof (cases "index (split CHR '':'' key) 1")
      case (Inl e')
      then have "e' = IndexError" by (auto simp: index_def split: if_splits)
      with Inl Cons.prems Cons.IH data show ?thesis
        by (auto simp: is_Exception_def split: if_splits simp del: One_nat_def)
    next
      case ix: (Inr vehicle_id)
      show ?thesis
      proof (cases "vehicle_entry bi vehicle_id data")
        case (Inl e')
        from vehicle_entry_raises [OF Inl] Inl Cons.prems Cons.IH data ix show ?thesis
          by (auto simp: is_ValueError_def split: if_splits simp del: One_nat_def)
      next
        case (Inr ov)
        with Cons.prems Cons.IH data ix show ?thesis
          by (cases ov) (auto split: if_splits simp del: One_nat_def)
      qed
    qed
  qed
qed

lemma fetch_unfold:
  "fetch_and_cache_vehicles bi r st =
     (case redis_keys r ''vehicle:*'' of
        Inl e \<Rightarrow> on_error ''Error fetching vehicles: '' e st
      | Inr all_keys \<Rightarrow>
          if filter (\<lambda>key. \<not> py_in '':track'' key) all_keys = [] then (None, st\<lparr>vehicle_cache := []\<rparr>)
          else
             (case scan_vehicles bi r (filter (\<lambda>key. \<not> py_in '':track'' key) all_keys) [] of
                Inl e \<Rightarrow> on_error ''Error fetching vehicles: '' e st
              | Inr vehicles \<Rightarrow>
                  (None,
                   sio_emit (Vehicles vehicles) None
                     (print (PrintCount ''Cached '' (length vehicles) '' vehicles from Redis'')
                        (st\<lparr>vehicle_cache := vehicles\<rparr>)))))"
  unfolding fetch_and_cache_vehicles_def Let_def ..

lemma fetch_fault:
  assumes "fault r (KEYS ''vehicle:*'') \<noteq> None \<or>
           (\<exists>key \<in> set (live_keys r). fault r (HGETALL key) \<noteq> None)"
  shows "\<exists>c e. fault r c = Some e \<and>
           fetch_and_cache_vehicles bi r st = on_error ''Error fetching vehicles: '' e st"
proof (cases "fault r (KEYS ''vehicle:*'')")
  case (Some e)
  then have "fetch_and_cache_vehicles bi r st = on_error ''Error fetching vehicles: '' e st"
    by (simp add: fetch_unfold redis_keys_def)
  with Some show ?thesis by blast
next
  case None
  then obtain key where key: "key \<in> set (live_keys r)" "fault r (HGETALL key) \<noteq> None"
    using assms by auto
  have keys: "redis_keys r ''vehicle:*'' = Inr (filter (matches ''vehicle:*'') (keyspace r))"
    using None by (simp add: redis_keys_def)
  have m: "\<forall>key \<in> set (live_keys r). matches ''vehicle:*'' key"
    by (auto simp: live_keys_def)
  from scan_vehicles_fault [OF m key, of bi "[]"]
  obtain k e where e: "fault r (HGETALL k) = Some e" "scan_vehicles bi r (live_keys r) [] = Inl e"
    by blast
  have ne: "live_keys r \<noteq> []" using key by auto
  have "fetch_and_cache_vehicles bi r st = on_error ''Error fetching vehicles: '' e st"
    using ne e(2) unfolding fetch_unfold keys sum.case live_keys_def by simp
  with e(1) show ?thesis by blast
qed

lemma fetch_raises:
  assumes "fst (fetch_and_cache_vehicles bi r st) = Some e"
  shows "\<exists>c. fault r c = Some e"
proof -
  have oe: "\<And>e'. fst (on_error ''Error fetching vehicles: '' e' st) = Some e \<Longrightarrow>
      e' = e \<and> \<not> is_Exception e"
    by (auto simp: on_error_def split: if_splits)
  show ?thesis
  proof (cases "redis_keys r ''vehicle:*''")
    case (Inl e')
    with assms oe [of e'] have "e' = e" by (simp add: fetch_unfold)
    with Inl show ?thesis
      by (auto simp: redis_keys_def split: option.splits)
  next
    case keys: (Inr all_keys)
    let ?keys = "filter (\<lambda>key. \<not> py_in '':track'' key) all_keys"
    from assms keys have ne: "?keys \<noteq> []"
      by (auto simp: fetch_unfold split: if_splits)
    show ?thesis
    proof (cases "scan_vehicles bi r ?keys []")
      case (Inl e')
      with assms keys ne oe [of e'] have "e' = e" "\<not> is_Exception e"
        by (simp_all add: fetch_unfold)
      with scan_vehicles_raises [OF Inl] show ?thesis by blast
    next
      case (Inr vs)
      with assms keys ne show ?thesis by (simp add: fetch_unfold)
    qed
  qed
qed

subsection \<open>The filter law\<close>

text \<open>
  When the store answers every read of a refresh, the snapshot that the refresh installs
  is the list of the projections of exactly those records that satisfy the filter law,
  in the order of their keys, among the records under the keys that the refresh reads:
  such a record is in the snapshot if and only if its status is \<open>active\<close> and its
  latitude and its longitude both parse as floating-point numbers that are not zero.
  Every other one is left out, and nothing is raised for it.
\<close>

lemma snapshot_of_live_keys:
  assumes "fault r (KEYS ''vehicle:*'') = None"
    and "\<forall>key \<in> set (live_keys r). fault r (HGETALL key) = None"
  shows "fst (fetch_and_cache_vehicles bi r st) = None \<and>
         vehicle_cache (snd (fetch_and_cache_vehicles bi r st)) =
           map (\<lambda>key. projection bi key (hash_at r key))
             (filter (\<lambda>key. filter_law bi (hash_at r key)) (live_keys r))"
proof -
  have keys: "redis_keys r ''vehicle:*'' = Inr (filter (matches ''vehicle:*'') (keyspace r))"
    using assms(1) by (simp add: redis_keys_def)
  have "\<forall>key \<in> set (live_keys r). fault r (HGETALL key) = None \<and> matches ''vehicle:*'' key"
    using assms(2) by (auto simp: live_keys_def)
  from scan_vehicles_law [OF this, of bi "[]"]
  have scan: "scan_vehicles bi r (live_keys r) [] =
      Inr (map (\<lambda>key. projection bi key (hash_at r key))
             (filter (\<lambda>key. filter_law bi (hash_at r key)) (live_keys r)))"
    by simp
  have "fetch_and_cache_vehicles bi r st =
      (if live_keys r = [] then (None, st\<lparr>vehicle_cache := []\<rparr>)
       else (case scan_vehicles bi r (live_keys r) [] of
                Inl e \<Rightarrow> on_error ''Error fetching vehicles: '' e st
              | Inr vehicles \<Rightarrow>
                  (None,
                   sio_emit (Vehicles vehicles) None
                     (print (PrintCount ''Cached '' (length vehicles) '' vehicles from Redis'')
                        (st\<lparr>vehicle_cache := vehicles\<rparr>)))))"
    unfolding fetch_and_cache_vehicles_def keys sum.case Let_def live_keys_def ..
  then show ?thesis
    by (simp add: scan sio_emit_def print_def)
qed

text \<open>
  On the sample store the snapshot is the one active vehicle with two coordinates: the
  inactive vehicle, the one at latitude zero, the one whose latitude does not parse and
  the one without a latitude are left out.
\<close>

lemma sample_live_keys:
  "live_keys sample_redis =
     [''vehicle:101'', ''vehicle:102'', ''vehicle:103'', ''vehicle:104'', ''vehicle:105'']"
  by (simp add: live_keys_def sample_redis_def matches_def)

lemma sample_filter_law:
  "filter (\<lambda>key. filter_law sample_python (hash_at sample_redis key)) (live_keys sample_redis) =
     [''vehicle:101'']"
  unfolding sample_live_keys
  by (simp add: sample_redis_def sample_hash_def filter_law_def
      parses_nonzero_def sample_python_def)

lemma sample_projection:
  "projection sample_python ''vehicle:101'' (hash_at sample_redis ''vehicle:101'') =
     [(''id'', PStr ''101''), (''lat'', PFloat (FNum 38.72)), (''lng'', PFloat (FNum (- 9.14))),
      (''rsn'', PStr ''728''), (''lp'', PStr ''AA-01-BB''), (''tid'', PStr ''T1''),
      (''br'', PStr ''90'')]"
  by (simp add: projection_def sample_redis_def sample_hash_def sample_python_def field_or_def)

lemma sample_snapshot:
  "fst (fetch_and_cache_vehicles sample_python sample_redis st) = None \<and>
   vehicle_cache (snd (fetch_and_cache_vehicles sample_python sample_redis st)) =
     [[(''id'', PStr ''101''), (''lat'', PFloat (FNum 38.72)), (''lng'', PFloat (FNum (- 9.14))),
       (''rsn'', PStr ''728''), (''lp'', PStr ''AA-01-BB''), (''tid'', PStr ''T1''),
       (''br'', PStr ''90'')]]"
proof -
  have h1: "fault sample_redis (KEYS ''vehicle:*'') = None"
    by (simp add: sample_redis_def)
  have h2: "\<forall>key \<in> set (live_keys sample_redis). fault sample_redis (HGETALL key) = None"
    by (simp add: sample_redis_def)
  from snapshot_of_live_keys [OF h1 h2, of sample_python st]
  show ?thesis
    by (simp only: sample_filter_law list.map sample_projection)
qed

text \<open>
  The keys that the refresh reads are not all the position keys of the store. A key is
  left out when the text \<open>:track\<close> occurs anywhere in it, and so is the key of a
  vehicle whose id begins with \<open>track\<close>, although it is no history key. The detail
  query reads the record of such a vehicle.
\<close>

lemma tracker_position_keys:
  "position_keys tracker_redis = [''vehicle:101'', ''vehicle:tracker7'']"
  by (simp add: position_keys_def tracker_redis_def matches_def suffix_to_prefix)

lemma tracker_live_keys: "live_keys tracker_redis = [''vehicle:101'']"
  by (simp add: live_keys_def tracker_redis_def matches_def)

lemma tracker_filter_law:
  "filter_law sample_python (hash_at tracker_redis ''vehicle:101'')"
  "filter_law sample_python (hash_at tracker_redis ''vehicle:tracker7'')"
  by (simp_all add: tracker_redis_def tracker_hash_def sample_hash_def filter_law_def
      parses_nonzero_def sample_python_def)

lemma tracker_projection:
  "projection sample_python ''vehicle:101'' (hash_at tracker_redis ''vehicle:101'') =
     [(''id'', PStr ''101''), (''lat'', PFloat (FNum 38.72)), (''lng'', PFloat (FNum (- 9.14))),
      (''rsn'', PStr ''728''), (''lp'', PStr ''AA-01-BB''), (''tid'', PStr ''T1''),
      (''br'', PStr ''90'')]"
  by (simp add: projection_def tracker_redis_def tracker_hash_def sample_hash_def
      sample_python_def field_or_def)

lemma tracker_has_detail:
  "\<exists>d. fst (get_vehicle_details sample_python tracker_redis ''tracker7'' st) = Inr d \<and>
       map_of d ''id'' = Some (PStr ''tracker7'') \<and>
       map_of d ''lat'' = Some (PFloat (FNum 38.74)) \<and>
       map_of d ''lng'' = Some (PFloat (FNum (- 9.16)))"
  by (simp add: get_vehicle_details_def redis_hgetall_def tracker_redis_def tracker_hash_def
      data_get_def sample_python_def)

text \<open>
  \<^bold>\<open>C1.\<close> Every record of the store that satisfies the filter law (status
  \<open>active\<close>, latitude and longitude parse and are not zero) should have its projection
  in the snapshot of a refresh. The code leaves out the record of vehicle \<open>tracker7\<close>:
  in a store with the position keys \<open>vehicle:101\<close> and \<open>vehicle:tracker7\<close>, whose
  records both satisfy the filter law, the refresh completes and the snapshot holds
  vehicle \<open>101\<close> alone.
\<close>

theorem tracker_left_out:
  "position_keys tracker_redis = [''vehicle:101'', ''vehicle:tracker7''] \<and>
   filter_law sample_python (hash_at tracker_redis ''vehicle:tracker7'') \<and>
   fst (fetch_and_cache_vehicles sample_python tracker_redis st) = None \<and>
   vehicle_cache (snd (fetch_and_cache_vehicles sample_python tracker_redis st)) =
     [[(''id'', PStr ''101''), (''lat'', PFloat (FNum 38.72)), (''lng'', PFloat (FNum (- 9.14))),
       (''rsn'', PStr ''728''), (''lp'', PStr ''AA-01-BB''), (''tid'', PStr ''T1''),
       (''br'', PStr ''90'')]]"
proof -
  have h1: "fault tracker_redis (KEYS ''vehicle:*'') = None"
    by (simp add: tracker_redis_def)
  have h2: "\<forall>key \<in> set (live_keys tracker_redis). fault tracker_redis (HGETALL key) = None"
    by (simp add: tracker_redis_def)
  have f: "filter (\<lambda>key. filter_law sample_python (hash_at tracker_redis key))
      (live_keys tracker_redis) = [''vehicle:101'']"
    unfolding tracker_live_keys by (simp add: tracker_filter_law)
  from snapshot_of_live_keys [OF h1 h2, of sample_python st]
  have "fst (fetch_and_cache_vehicles sample_python tracker_redis st) = None \<and>
      vehicle_cache (snd (fetch_and_cache_vehicles sample_python tracker_redis st)) =
        [[(''id'', PStr ''101''), (''lat'', PFloat (FNum 38.72)), (''lng'', PFloat (FNum (- 9.14))),
          (''rsn'', PStr ''728''), (''lp'', PStr ''AA-01-BB''), (''tid'', PStr ''T1''),
          (''br'', PStr ''90'')]]"
    by (simp only: f list.map tracker_projection)
  with tracker_position_keys tracker_filter_law(2) show ?thesis
    by (simp only: simp_thms)
qed

subsection \<open>Publishing\<close>

text \<open>
  \<^bold>\<open>C2.\<close> Every refresh that completes should publish the snapshot it has built
  to all clients, also the empty one. The code does not when the store has no position
  key: it installs the empty snapshot and returns before the emit, so that no client
  hears of it.
\<close>

theorem empty_store_not_published:
  "fst (fetch_and_cache_vehicles bi empty_redis st) = None \<and>
   vehicle_cache (snd (fetch_and_cache_vehicles bi empty_redis st)) = [] \<and>
   emitted (snd (fetch_and_cache_vehicles bi empty_redis st)) = emitted st"
  by (simp add: fetch_and_cache_vehicles_def redis_keys_def empty_redis_def)

text \<open>
  The neighbouring path does publish the empty snapshot: a store whose keys are all
  filtered out.
\<close>

lemma idle_store_published:
  "emitted (snd (fetch_and_cache_vehicles bi idle_redis st)) = emitted st @ [Emit (Vehicles []) None]"
  by (simp add: fetch_and_cache_vehicles_def redis_keys_def idle_redis_def matches_def
      redis_hgetall_def sample_hash_def index_def sio_emit_def print_def)

subsection \<open>Failures\<close>

lemma periodic_never_raises:
  assumes "\<forall>c \<in> set cs. turn_ok c"
  shows "fst (periodic_vehicle_updates bi cs st) \<noteq> Raised x"
  using assms
proof (induction cs arbitrary: st)
  case Nil
  show ?case by simp
next
  case (Cons c cs)
  have IH: "\<And>st. fst (periodic_vehicle_updates bi cs st) \<noteq> Raised x"
    using Cons by simp
  have ok: "turn_ok c" using Cons.prems by simp
  obtain oe st' where step: "(case sleep_raises c of
              Some e \<Rightarrow> (Some e, st)
            | None \<Rightarrow> fetch_and_cache_vehicles bi (backend c) st) = (oe, st')"
    by (cases "(case sleep_raises c of
              Some e \<Rightarrow> (Some e, st)
            | None \<Rightarrow> fetch_and_cache_vehicles bi (backend c) st)") auto
  show ?case
  proof (cases oe)
    case None
    with step IH show ?thesis by simp
  next
    case (Some e)
    have "cancel_or_error e"
    proof (cases "sleep_raises c")
      case None
      with step Some have "fst (fetch_and_cache_vehicles bi (backend c) st) = Some e" by simp
      from fetch_raises [OF this] ok show ?thesis by (auto simp: turn_ok_def)
    next
      case (Some e')
      with step \<open>oe = Some e\<close> ok show ?thesis by (auto simp: turn_ok_def)
    qed
    with Some step IH show ?thesis
      by (cases "e = CancelledError") (simp_all add: cancel_or_error_def)
  qed
qed

text \<open>
  \<^bold>\<open>C3.\<close> When a read of the store fails during a refresh (the key scan, or the
  read of the hash of a key that the refresh reads) and the failures of the store are
  exceptions of the backend, the refresh returns without raising, the snapshot and the
  emits are what they were before (nothing half-built is installed, nothing is
  published), one line with the error is printed, and the periodic task that runs this
  refresh does not end with an exception, as long as the turns that follow raise nothing
  but cancellations and errors of the backend.
\<close>

theorem refresh_failure_policy:
  assumes "fault r (KEYS ''vehicle:*'') \<noteq> None \<or>
           (\<exists>key \<in> set (live_keys r). fault r (HGETALL key) \<noteq> None)"
    and "\<forall>c e. fault r c = Some e \<longrightarrow> is_Exception e"
    and "\<forall>c \<in> set cs. turn_ok c"
  shows "fst (fetch_and_cache_vehicles bi r st) = None \<and>
         vehicle_cache (snd (fetch_and_cache_vehicles bi r st)) = vehicle_cache st \<and>
         emitted (snd (fetch_and_cache_vehicles bi r st)) = emitted st \<and>
         (\<exists>e. printed (snd (fetch_and_cache_vehicles bi r st)) =
                 printed st @ [PrintError ''Error fetching vehicles: '' e]) \<and>
         fst (periodic_vehicle_updates bi (\<lparr>sleep_raises = None, backend = r\<rparr> # cs) st) \<noteq> Raised x"
proof -
  from fetch_fault [OF assms(1), of bi st] obtain c e where
    e: "fault r c = Some e"
       "fetch_and_cache_vehicles bi r st = on_error ''Error fetching vehicles: '' e st"
    by blast
  have "is_Exception e" using assms(2) e(1) by blast
  then have "fetch_and_cache_vehicles bi r st =
      (None, print (PrintError ''Error fetching vehicles: '' e) st)"
    by (simp add: e(2) on_error_def)
  moreover have "turn_ok \<lparr>sleep_raises = None, backend = r\<rparr>"
    using assms(2) by (auto simp: turn_ok_def cancel_or_error_def)
  then have "\<forall>c \<in> set (\<lparr>sleep_raises = None, backend = r\<rparr> # cs). turn_ok c"
    using assms(3) by simp
  from periodic_never_raises [OF this, of bi st x]
  have "fst (periodic_vehicle_updates bi (\<lparr>sleep_raises = None, backend = r\<rparr> # cs) st) \<noteq> Raised x" .
  ultimately show ?thesis
    by (simp add: print_def)
qed

text \<open>
  On the sample store with a timeout at the second vehicle the published vehicle stays,
  the timeout is printed, and the task runs on until it is cancelled.
\<close>

theorem refresh_failure_policy_witness:
  "fst (fetch_and_cache_vehicles sample_python failing_redis sample_server) = None \<and>
   vehicle_cache (snd (fetch_and_cache_vehicles sample_python failing_redis sample_server)) =
     vehicle_cache sample_server \<and>
   emitted (snd (fetch_and_cache_vehicles sample_python failing_redis sample_server)) = [] \<and>
   printed (snd (fetch_and_cache_vehicles sample_python failing_redis sample_server)) =
     [PrintError ''Error fetching vehicles: '' (RedisError ''timeout'')] \<and>
   fst (periodic_vehicle_updates sample_python
          [\<lparr>sleep_raises = None, backend = failing_redis\<rparr>,
           \<lparr>sleep_raises = Some CancelledError, backend = sample_redis\<rparr>] sample_server) = Break"
proof -
  have lk: "live_keys failing_redis = live_keys sample_redis"
    by (simp add: live_keys_def failing_redis_def)
  have h1: "fault failing_redis (KEYS ''vehicle:*'') \<noteq> None \<or>
           (\<exists>key \<in> set (live_keys failing_redis). fault failing_redis (HGETALL key) \<noteq> None)"
    unfolding lk sample_live_keys by (simp add: failing_redis_def)
  have h2: "\<forall>c e. fault failing_redis c = Some e \<longrightarrow> is_Exception e"
    by (auto simp: failing_redis_def is_Exception_def split: if_splits)
  have h3: "\<forall>c \<in> set [\<lparr>sleep_raises = Some CancelledError, backend = sample_redis\<rparr>]. turn_ok c"
    by (simp add: turn_ok_def cancel_or_error_def sample_redis_def)
  have ev: "fetch_and_cache_vehicles sample_python failing_redis sample_server =
      (None, sample_server\<lparr>printed := [PrintError ''Error fetching vehicles: '' (RedisError ''timeout'')]\<rparr>)"
    by (simp add: fetch_and_cache_vehicles_def redis_keys_def failing_redis_def sample_redis_def
        matches_def redis_hgetall_def sample_hash_def index_def vehicle_entry_def data_get_def
        sample_python_def truthy_def on_error_def is_Exception_def print_def sample_server_def)
  have loop: "fst (periodic_vehicle_updates sample_python
          [\<lparr>sleep_raises = None, backend = failing_redis\<rparr>,
           \<lparr>sleep_raises = Some CancelledError, backend = sample_redis\<rparr>] sample_server) = Break"
    by (simp add: ev)
  from refresh_failure_policy [where bi = sample_python and st = sample_server
      and x = CancelledError, OF h1 h2 h3]
  show ?thesis
    unfolding ev loop
    by (simp add: sample_server_def)
qed

subsection \<open>Idempotence\<close>

lemma fetch_cache_cases:
  "(\<forall>st. vehicle_cache (snd (fetch_and_cache_vehicles bi r st)) = vehicle_cache st) \<or>
   (\<exists>vs. \<forall>st. vehicle_cache (snd (fetch_and_cache_vehicles bi r st)) = vs)"
proof (cases "redis_keys r ''vehicle:*''")
  case (Inl e)
  then have "\<forall>st. vehicle_cache (snd (fetch_and_cache_vehicles bi r st)) = vehicle_cache st"
    by (simp add: fetch_unfold on_error_def print_def)
  then show ?thesis ..
next
  case keys: (Inr all_keys)
  let ?keys = "filter (\<lambda>key. \<not> py_in '':track'' key) all_keys"
  show ?thesis
  proof (cases "?keys = []")
    case True
    then have "\<forall>st. vehicle_cache (snd (fetch_and_cache_vehicles bi r st)) = []"
      by (simp add: fetch_unfold keys)
    then show ?thesis by blast
  next
    case False
    show ?thesis
    proof (cases "scan_vehicles bi r ?keys []")
      case (Inl e)
      then have "\<forall>st. vehicle_cache (snd (fetch_and_cache_vehicles bi r st)) = vehicle_cache st"
        using False by (simp add: fetch_unfold keys on_error_def print_def)
      then show ?thesis ..
    next
      case (Inr vs)
      then have "\<forall>st. vehicle_cache (snd (fetch_and_cache_vehicles bi r st)) = vs"
        using False by (simp add: fetch_unfold keys sio_emit_def print_def)
      then show ?thesis by blast
    qed
  qed
qed

text \<open>
  \<^bold>\<open>C8.\<close> A second refresh against the same store leaves the snapshot of the first
  as it is.
\<close>

theorem refresh_idempotent:
  "vehicle_cache (snd (fetch_and_cache_vehicles bi r (snd (fetch_and_cache_vehicles bi r st)))) =
   vehicle_cache (snd (fetch_and_cache_vehicles bi r st))"
  using fetch_cache_cases [of bi r] by metis

theorem refresh_idempotent_witness:
  "vehicle_cache (snd (fetch_and_cache_vehicles sample_python sample_redis
      (snd (fetch_and_cache_vehicles sample_python sample_redis sample_server)))) =
   vehicle_cache (snd (fetch_and_cache_vehicles sample_python sample_redis sample_server))"
  using refresh_idempotent [of sample_python sample_redis sample_server] .

section \<open>The push channel and the queries on the store: properties\<close>

subsection \<open>Connecting\<close>

text \<open>
  The connect handler emits two events and no other: first the snapshot that the latest
  completed refresh has installed, to the room of the connecting client alone, then the
  number of the rooms of the default namespace, to everyone. The snapshot itself stays as
  it is.
\<close>

lemma connect_emits:
  "emitted (connect sid st) =
     emitted st @ [Emit (Vehicles (vehicle_cache st)) (Some sid), Emit (UserCount (user_count st)) None] \<and>
   vehicle_cache (connect sid st) = vehicle_cache st"
  by (simp add: connect_def sio_emit_def print_def user_count_def Let_def)

text \<open>
  The number of the rooms is not the number of the clients. When clients with different
  session ids have connected to a server that had none, the default namespace has the
  room \<open>None\<close> and one room for each client: one room more than there are clients.
\<close>

lemma map_fst_dict_set:
  "map fst (dict_set k v d) = (if k \<in> fst ` set d then map fst d else map fst d @ [k])"
  by (induction d) auto

lemma map_of_dict_set: "map_of (dict_set k v d) = (map_of d)(k \<mapsto> v)"
  by (induction d) (auto simp: fun_eq_iff)

lemma basic_enter_room_rooms:
  assumes "map_of (rooms st) namespace = Some d"
  shows "rooms (basic_enter_room sid namespace room st) =
     dict_set namespace
       (dict_set room
          (case map_of d room of
             None \<Rightarrow> [sid]
           | Some sids \<Rightarrow> if sid \<in> set sids then sids else sids @ [sid]) d)
       (rooms st)"
  using assms by (simp add: basic_enter_room_def Let_def split: option.splits)

lemma manager_connect_first:
  "rooms (manager_connect sid (st\<lparr>rooms := []\<rparr>)) = [(''/'', [(None, [sid]), (Some sid, [sid])])]"
  by (simp add: manager_connect_def basic_enter_room_def)

lemma manager_connect_next:
  assumes "map_of (rooms st) ''/'' = Some d" and "map fst d = None # map Some sids"
    and "map_of d None = Some sids" and "sid \<notin> set sids"
  shows "\<exists>d'. map_of (rooms (manager_connect sid st)) ''/'' = Some d' \<and>
              map fst d' = None # map Some (sids @ [sid]) \<and>
              map_of d' None = Some (sids @ [sid])"
proof -
  define d1 where "d1 = dict_set None (sids @ [sid]) d"
  define st1 where "st1 = basic_enter_room sid ''/'' None st"
  have r1: "rooms st1 = dict_set ''/'' d1 (rooms st)"
    unfolding st1_def basic_enter_room_rooms [OF assms(1)]
    using assms(3,4) by (simp add: d1_def)
  have k1: "map fst d1 = None # map Some sids"
    using assms(2) by (cases d) (auto simp: d1_def)
  have m1: "map_of (rooms st1) ''/'' = Some d1"
    by (simp add: r1 map_of_dict_set)
  have k: "Some sid \<notin> set (map fst d1)"
    using assms(4) by (auto simp: k1)
  then have n1: "map_of d1 (Some sid) = None"
    by (simp add: map_of_eq_None_iff)
  define d2 where "d2 = dict_set (Some sid) [sid] d1"
  have r2: "rooms (manager_connect sid st) = dict_set ''/'' d2 (rooms st1)"
    unfolding manager_connect_def st1_def [symmetric] basic_enter_room_rooms [OF m1]
    by (simp add: n1 d2_def)
  have "map_of (rooms (manager_connect sid st)) ''/'' = Some d2"
    by (simp add: r2 map_of_dict_set)
  moreover have "map fst d2 = None # map Some (sids @ [sid])"
  proof -
    from k have "Some sid \<notin> fst ` set d1" by simp
    then show ?thesis by (simp add: d2_def map_fst_dict_set k1)
  qed
  moreover have "map_of d2 None = Some (sids @ [sid])"
    by (simp add: d2_def d1_def map_of_dict_set)
  ultimately show ?thesis by (intro exI [of _ d2] conjI)
qed

lemma registry_after_connects:
  assumes "sids \<noteq> []" and "distinct sids"
  shows "\<exists>d. map_of (rooms (fold manager_connect sids (st\<lparr>rooms := []\<rparr>))) ''/'' = Some d \<and>
             map fst d = None # map Some sids \<and> map_of d None = Some sids"
  using assms
proof (induction sids rule: rev_nonempty_induct)
  case (single sid)
  show ?case by (simp add: manager_connect_first)
next
  case (snoc sid sids)
  then obtain d where d: "map_of (rooms (fold manager_connect sids (st\<lparr>rooms := []\<rparr>))) ''/'' = Some d"
      "map fst d = None # map Some sids" "map_of d None = Some sids"
    by auto
  from snoc.prems have "sid \<notin> set sids" by simp
  from manager_connect_next [OF d this] show ?case by simp
qed

lemma user_count_one_too_many:
  assumes "sids \<noteq> []" and "distinct sids"
  shows "connection_count (fold manager_connect sids (st\<lparr>rooms := []\<rparr>)) = length sids \<and>
         user_count (fold manager_connect sids (st\<lparr>rooms := []\<rparr>)) = length sids + 1"
proof -
  from registry_after_connects [OF assms]
  have "\<exists>d. map_of (rooms (fold manager_connect sids (st\<lparr>rooms := []\<rparr>))) ''/'' = Some d \<and>
      map fst d = None # map Some sids \<and> map_of d None = Some sids" .
  then obtain d
    where d: "map_of (rooms (fold manager_connect sids (st\<lparr>rooms := []\<rparr>))) ''/'' = Some d"
      and k: "map fst d = None # map Some sids" and m: "map_of d None = Some sids"
    by (elim exE conjE)
  have "length (map fst d) = length sids + 1"
    unfolding k by simp
  then show ?thesis
    by (simp add: connection_count_def connected_def user_count_def d m)
qed

lemma sample_registry:
  "rooms (manager_connect ''sid2'' (manager_connect ''sid1'' (st\<lparr>rooms := []\<rparr>))) =
     rooms sample_server"
  by (simp add: manager_connect_def basic_enter_room_def sample_server_def)

lemma first_client_counts_two:
  "emitted (connect ''sid1'' (manager_connect ''sid1'' (st\<lparr>rooms := []\<rparr>))) =
     emitted st @ [Emit (Vehicles (vehicle_cache st)) (Some ''sid1''), Emit (UserCount 2) None]"
  by (simp add: connect_def sio_emit_def print_def user_count_def Let_def
      manager_connect_def basic_enter_room_def)

text \<open>
  \<^bold>\<open>C9.\<close> A client that connects should be sent the snapshot of the latest
  completed refresh, it alone and once, and then everyone the current connection count.
  The snapshot is sent as it should be; the count is not the connection count. When
  \<open>sid1\<close> and then \<open>sid2\<close> connect to a server without clients, two clients are
  connected when the handler runs for \<open>sid2\<close>, and the count that it sends to everyone
  is 3.
\<close>

theorem connect_counts_rooms:
  "connected (manager_connect ''sid2'' (manager_connect ''sid1'' (st\<lparr>rooms := []\<rparr>))) =
     [''sid1'', ''sid2''] \<and>
   emitted (connect ''sid2'' (manager_connect ''sid2'' (manager_connect ''sid1'' (st\<lparr>rooms := []\<rparr>)))) =
     emitted st @ [Emit (Vehicles (vehicle_cache st)) (Some ''sid2''), Emit (UserCount 3) None]"
  by (simp add: connect_def sio_emit_def print_def user_count_def Let_def connected_def
      manager_connect_def basic_enter_room_def)

subsection \<open>Not found\<close>

text \<open>
  \<^bold>\<open>C6.\<close> The detail of a vehicle whose hash in the store is empty is the response
  404, not an object; so is the detail of a stop that is not in the catalog.
\<close>

theorem absent_is_not_found:
  assumes "fault r (HGETALL (''vehicle:'' @ vehicle_id)) = None"
    and "hash_at r (''vehicle:'' @ vehicle_id) = []"
    and "map_of (stop_details_cache st) stop_id = None"
  shows "fst (get_vehicle_details bi r vehicle_id st) = Inl (HTTPException 404 ''Vehicle not found'') \<and>
         get_stop_details st stop_id = Inl (HTTPException 404 ''Stop not found'')"
  using assms
  by (simp add: get_vehicle_details_def redis_hgetall_def details_error_def get_stop_details_def)

theorem absent_is_not_found_witness:
  "fst (get_vehicle_details sample_python sample_redis ''999'' sample_server) =
     Inl (HTTPException 404 ''Vehicle not found'') \<and>
   get_stop_details sample_server ''S9'' = Inl (HTTPException 404 ''Stop not found'')"
proof -
  have h1: "fault sample_redis (HGETALL (''vehicle:'' @ ''999'')) = None"
    by (simp add: sample_redis_def)
  have h2: "hash_at sample_redis (''vehicle:'' @ ''999'') = []"
    by (simp add: sample_redis_def sample_hash_def)
  have h3: "map_of (stop_details_cache sample_server) ''S9'' = None"
    by (simp add: sample_server_def)
  from absent_is_not_found [OF h1 h2 h3] show ?thesis .
qed

subsection \<open>Vehicle detail\<close>

lemma float_field_coordinate:
  "py_float bi (data_get data f (PInt 0)) =
     (case coordinate bi data f of None \<Rightarrow> Inl ValueError | Some x \<Rightarrow> Inr x)"
  by (simp add: float_field coordinate_def split: option.splits)

text \<open>
  \<^bold>\<open>C10.\<close> The detail of a vehicle whose hash is not empty, when the store
  answers, is a full object of twenty fields whatever the status and whatever the values
  of the coordinates, provided that each coordinate that is present parses: the filter of
  the snapshot is not applied, and a missing latitude or longitude is \<open>0.0\<close> in the
  object. A coordinate that is present and does not parse gives the response 500.
\<close>

theorem vehicle_details_unfiltered:
  assumes "fault r (HGETALL (''vehicle:'' @ vehicle_id)) = None"
    and "hash_at r (''vehicle:'' @ vehicle_id) = data" and "data \<noteq> []"
  shows "(case (coordinate bi data ''latitude'', coordinate bi data ''longitude'') of
            (Some lat, Some lng) \<Rightarrow>
              (\<exists>d. fst (get_vehicle_details bi r vehicle_id st) = Inr d \<and>
                   map_of d ''id'' = Some (PStr vehicle_id) \<and>
                   map_of d ''lat'' = Some (PFloat lat) \<and>
                   map_of d ''lng'' = Some (PFloat lng) \<and>
                   length d = 20)
          | _ \<Rightarrow>
              fst (get_vehicle_details bi r vehicle_id st) =
                Inl (HTTPException 500 ''Failed to fetch vehicle details''))"
proof -
  have hg: "redis_hgetall r (''vehicle:'' @ vehicle_id) = Inr data"
    using assms by (simp add: redis_hgetall_def)
  show ?thesis
    unfolding get_vehicle_details_def hg sum.case float_field_coordinate
    using assms(3)
    by (simp add: details_error_def is_Exception_def split: option.splits)
qed

text \<open>
  The inactive sample vehicle without a latitude has a detail object, with latitude
  \<open>0.0\<close>.
\<close>

theorem vehicle_details_unfiltered_witness:
  "(\<exists>d. fst (get_vehicle_details sample_python sample_redis ''105'' sample_server) = Inr d \<and>
        map_of d ''id'' = Some (PStr ''105'') \<and>
        map_of d ''lat'' = Some (PFloat (FNum 0)) \<and>
        map_of d ''lng'' = Some (PFloat (FNum (- 9.16))) \<and>
        length d = 20)"
proof -
  have h1: "fault sample_redis (HGETALL (''vehicle:'' @ ''105'')) = None"
    by (simp add: sample_redis_def)
  have h2: "hash_at sample_redis (''vehicle:'' @ ''105'') =
      [(''status'', ''inactive''), (''longitude'', ''-9.16'')]"
    by (simp add: sample_redis_def sample_hash_def)
  have h3: "[(''status'', ''inactive''), (''longitude'', ''-9.16'')] \<noteq> ([] :: (string \<times> string) list)"
    by simp
  have c1: "coordinate sample_python [(''status'', ''inactive''), (''longitude'', ''-9.16'')] ''latitude''
      = Some (FNum 0)"
    by (simp add: coordinate_def)
  have c2: "coordinate sample_python [(''status'', ''inactive''), (''longitude'', ''-9.16'')] ''longitude''
      = Some (FNum (- 9.16))"
    by (simp add: coordinate_def sample_python_def)
  from vehicle_details_unfiltered [OF h1 h2 h3, of sample_python sample_server]
  show ?thesis
    unfolding c1 c2 by simp
qed

text \<open>
  The detail does not succeed for every vehicle whose hash is not empty: for the sample
  vehicle whose latitude is \<open>abc\<close> the response is 500.
\<close>

theorem details_unparsable_counterexample:
  "hash_at sample_redis ''vehicle:104'' \<noteq> [] \<and>
   fault sample_redis (HGETALL ''vehicle:104'') = None \<and>
   fst (get_vehicle_details sample_python sample_redis ''104'' sample_server) =
     Inl (HTTPException 500 ''Failed to fetch vehicle details'')"
  by (simp add: get_vehicle_details_def redis_hgetall_def sample_redis_def sample_hash_def
      data_get_def sample_python_def details_error_def is_Exception_def)

subsection \<open>Track history\<close>

text \<open>
  The query reads the reply of the client as a flat list: a member at each even index
  and its score at the next. The client hands over a list of pairs. So whenever the
  history is not empty, what is read at index 0 is a pair, \<open>json.loads\<close> raises a
  \<open>TypeError\<close>, which the handler in the loop does not catch, and the query ends with
  the response 500. Only the empty history has an answer.
\<close>

lemma paired_reply_fails:
  assumes "fault r (ZRANGE (''vehicle:'' @ vehicle_id @ '':track'')) = None"
    and "zset_at r (''vehicle:'' @ vehicle_id @ '':track'') \<noteq> []"
  shows "fst (get_vehicle_track bi r vehicle_id st) =
           Inl (HTTPException 500 ''Failed to fetch vehicle track'')"
proof -
  define h where "h = zset_at r (''vehicle:'' @ vehicle_id @ '':track'')"
  obtain m s h' where h: "h = (m, s) # h'"
    using assms(2) unfolding h_def by (cases "zset_at r (''vehicle:'' @ vehicle_id @ '':track'')") auto
  have zr: "redis_zrange r (''vehicle:'' @ vehicle_id @ '':track'') = Inr (paired h)"
    using assms(1) by (simp add: redis_zrange_def h_def)
  have r2: "range2 (length (paired h)) = 0 # map (\<lambda>j. 2 * j) [1 ..< (length h + 1) div 2]"
    by (simp add: range2_def paired_def h upt_rec [of 0])
  have tp: "track_point bi (paired h) 0 = Inl TypeError"
    by (simp add: track_point_def index_def paired_def h py_json_loads_def)
  have "parse_track bi (paired h) (range2 (length (paired h))) [] = Inl TypeError"
    unfolding r2 by (simp add: tp is_ValueError_def)
  moreover have "paired h \<noteq> []" by (simp add: paired_def h)
  ultimately show ?thesis
    unfolding get_vehicle_track_def zr sum.case
    by (simp add: track_error_def is_Exception_def)
qed

lemma empty_history_is_empty_track:
  assumes "fault r (ZRANGE (''vehicle:'' @ vehicle_id @ '':track'')) = None"
    and "zset_at r (''vehicle:'' @ vehicle_id @ '':track'') = []"
  shows "get_vehicle_track bi r vehicle_id st = (Inr [], st)"
  using assms by (simp add: get_vehicle_track_def redis_zrange_def paired_def)

text \<open>
  The handler in the loop does not catch a \<open>TypeError\<close> either when the member is read
  as it should be but is JSON that is no object, such as \<open>null\<close>.
\<close>

lemma null_member_fails:
  assumes "json_loads bi member = Some PNone"
  shows "parse_track bi [PStr member, score] [0] [] = Inl TypeError"
  using assms
  by (simp add: track_point_def index_def py_json_loads_def is_ValueError_def)

text \<open>
  The sample history has five entries; the third is cut off in the middle of its JSON,
  the other four are valid.
\<close>

lemmas sample_points_defs = point1_def point2_def point3_def point4_def point5_def

lemma sample_valid_points:
  "valid_points sample_python sample_history =
     [[(''lat'', PFloat (FNum 38.71)), (''lng'', PFloat (FNum (- 9.13))), (''timestamp'', PInt 1700000000)],
      [(''lat'', PFloat (FNum 38.72)), (''lng'', PFloat (FNum (- 9.14))), (''timestamp'', PInt 1700000030)],
      [(''lat'', PFloat (FNum 38.74)), (''lng'', PFloat (FNum (- 9.16))), (''timestamp'', PInt 1700000090)],
      [(''lat'', PFloat (FNum 38.75)), (''lng'', PFloat (FNum (- 9.17))), (''timestamp'', PInt 1700000120)]]"
  by (simp add: valid_points_def sample_history_def entry_point_def sample_python_def
      sample_points_defs)

text \<open>
  \<^bold>\<open>C4.\<close> The track query should skip the malformed entries of a history and
  return the points of the valid ones, in the order of the history: for the sample
  history of five entries, of which one is malformed, the four valid points. The code
  returns no point: the query ends with the response 500.
\<close>

theorem track_fails_on_pairs:
  "zset_at sample_redis ''vehicle:101:track'' = sample_history \<and>
   length sample_history = 5 \<and>
   valid_points sample_python sample_history =
     [[(''lat'', PFloat (FNum 38.71)), (''lng'', PFloat (FNum (- 9.13))), (''timestamp'', PInt 1700000000)],
      [(''lat'', PFloat (FNum 38.72)), (''lng'', PFloat (FNum (- 9.14))), (''timestamp'', PInt 1700000030)],
      [(''lat'', PFloat (FNum 38.74)), (''lng'', PFloat (FNum (- 9.16))), (''timestamp'', PInt 1700000090)],
      [(''lat'', PFloat (FNum 38.75)), (''lng'', PFloat (FNum (- 9.17))), (''timestamp'', PInt 1700000120)]] \<and>
   fst (get_vehicle_track sample_python sample_redis ''101'' st) =
     Inl (HTTPException 500 ''Failed to fetch vehicle track'')"
proof -
  have h1: "fault sample_redis (ZRANGE (''vehicle:'' @ ''101'' @ '':track'')) = None"
    by (simp add: sample_redis_def)
  have h2: "zset_at sample_redis (''vehicle:'' @ ''101'' @ '':track'') \<noteq> []"
    by (simp add: sample_redis_def sample_history_def)
  have z: "zset_at sample_redis ''vehicle:101:track'' = sample_history"
    by (simp add: sample_redis_def)
  have len: "length sample_history = 5"
    by (simp add: sample_history_def)
  from paired_reply_fails [OF h1 h2, of sample_python st] sample_valid_points len z
  show ?thesis
    by (simp only: simp_thms)
qed

section \<open>The catalog: properties\<close>

subsection \<open>Route labels\<close>

lemma Some_in_left_join: "Some x \<in> set (left_join c rows) \<longleftrightarrow> x \<in> set rows \<and> c x"
proof (cases "filter c rows")
  case Nil
  then have "set (filter c rows) = {}" by simp
  then have "\<not> (x \<in> set rows \<and> c x)" by auto
  moreover have "left_join c rows = [None]" by (simp add: left_join_def Nil)
  ultimately show ?thesis by simp
next
  case (Cons a as)
  then have "left_join c rows = map Some (filter c rows)"
    by (simp add: left_join_def)
  then show ?thesis by auto
qed

lemma set_map_filter_id: "set (List.map_filter (\<lambda>v. v) vals) = {x. Some x \<in> set vals}"
  by (induction vals) (auto simp: List.map_filter_simps split: option.splits)

lemma Some_in_joined:
  "Some n \<in> set (concat (map (\<lambda>y. case y of None \<Rightarrow> [None] | Some a \<Rightarrow> g a) (left_join c rows)))
     \<longleftrightarrow> (\<exists>a \<in> set rows. c a \<and> Some n \<in> set (g a))"
proof
  assume "Some n \<in> set (concat (map (\<lambda>y. case y of None \<Rightarrow> [None] | Some a \<Rightarrow> g a) (left_join c rows)))"
  then obtain y where y: "y \<in> set (left_join c rows)"
      "Some n \<in> set (case y of None \<Rightarrow> [None] | Some a \<Rightarrow> g a)"
    by auto
  from y(2) have "y \<noteq> None" by (auto split: option.splits)
  then obtain a where "y = Some a" by auto
  with y show "\<exists>a \<in> set rows. c a \<and> Some n \<in> set (g a)"
    by (auto simp: Some_in_left_join)
next
  assume "\<exists>a \<in> set rows. c a \<and> Some n \<in> set (g a)"
  then obtain a where a: "a \<in> set rows" "c a" "Some n \<in> set (g a)" by auto
  then have "Some a \<in> set (left_join c rows)" by (simp add: Some_in_left_join)
  with a(3) show "Some n \<in> set (concat (map (\<lambda>y. case y of None \<Rightarrow> [None] | Some a \<Rightarrow> g a) (left_join c rows)))"
    by force
qed

lemma Some_in_joined_last:
  "Some n \<in> set (map (\<lambda>y. case y of None \<Rightarrow> None | Some a \<Rightarrow> g a) (left_join c rows))
     \<longleftrightarrow> (\<exists>a \<in> set rows. c a \<and> g a = Some n)"
proof
  assume "Some n \<in> set (map (\<lambda>y. case y of None \<Rightarrow> None | Some a \<Rightarrow> g a) (left_join c rows))"
  then obtain y where y: "y \<in> set (left_join c rows)"
      "Some n = (case y of None \<Rightarrow> None | Some a \<Rightarrow> g a)"
    by auto
  from y(2) have "y \<noteq> None" by (auto split: option.splits)
  then obtain a where "y = Some a" by auto
  with y show "\<exists>a \<in> set rows. c a \<and> g a = Some n"
    by (auto simp: Some_in_left_join)
next
  assume "\<exists>a \<in> set rows. c a \<and> g a = Some n"
  then obtain a where a: "a \<in> set rows" "c a" "g a = Some n" by auto
  then have "Some a \<in> set (left_join c rows)" by (simp add: Some_in_left_join)
  with a(3) show "Some n \<in> set (map (\<lambda>y. case y of None \<Rightarrow> None | Some a \<Rightarrow> g a) (left_join c rows))"
    by force
qed

lemma stop_route_names_set:
  "Some n \<in> set (stop_route_names db sid) \<longleftrightarrow> n \<in> set (serving_routes db sid)"
proof -
  have "Some n \<in> set (stop_route_names db sid) \<longleftrightarrow>
        (\<exists>st \<in> set (stop_times db). st_stop_id st = sid \<and>
          (\<exists>t \<in> set (trips db). t_trip_id t = st_trip_id st \<and>
            (\<exists>ro \<in> set (routes db). r_route_id ro = t_route_id t \<and> r_route_short_name ro = Some n)))"
    unfolding stop_route_names_def Some_in_joined Some_in_joined_last ..
  also have "\<dots> \<longleftrightarrow> n \<in> set (serving_routes db sid)"
    unfolding serving_routes_def by (auto split: option.splits) (force+)
  finally show ?thesis .
qed

lemma string_agg_distinct_label:
  assumes "\<And>n. Some n \<in> set vals \<longleftrightarrow> n \<in> set names"
  shows "routes_or_empty (string_agg_distinct vals) =
           PStr (string_agg '', '' (sorted_list_of_set (set names)))"
proof -
  have "set (List.map_filter (\<lambda>v. v) vals) = set names"
    using assms by (auto simp: set_map_filter_id)
  then have "sort (remdups (List.map_filter (\<lambda>v. v) vals)) = sorted_list_of_set (set names)"
    by (metis sorted_list_of_set_sort_remdups)
  then show ?thesis
    by (cases "sorted_list_of_set (set names)")
       (simp_all add: string_agg_distinct_def routes_or_empty_def)
qed

lemma stops_query_rows:
  assumes "stops_query db = Inr rows" and "(k, agg) \<in> set rows"
  shows "routes_or_empty agg = PStr (route_label db (fst k)) \<and>
         (\<exists>s \<in> set (stops db). located s \<and> group_key s = k)"
proof -
  let ?located = "filter (\<lambda>s. s_stop_lat s \<noteq> PNone \<and> s_stop_lon s \<noteq> PNone) (stops db)"
  let ?vals = "\<lambda>k. concat (map (\<lambda>s. stop_route_names db (s_stop_id s))
                                      (filter (\<lambda>s. group_key s = k) ?located))"
  from assms(1) have rows: "rows = map (\<lambda>k. (k, string_agg_distinct (?vals k)))
                   (remdups (map group_key ?located))"
    by (auto simp: stops_query_def Let_def split: option.splits)
  with assms(2) have k: "k \<in> set (map group_key ?located)" and agg: "agg = string_agg_distinct (?vals k)"
    by auto
  from k obtain s0 where s0: "s0 \<in> set ?located" "group_key s0 = k" by auto
  have "\<And>n. Some n \<in> set (?vals k) \<longleftrightarrow> n \<in> set (serving_routes db (fst k))"
  proof
    fix n
    assume "Some n \<in> set (?vals k)"
    then obtain s where "s \<in> set ?located" "group_key s = k" "Some n \<in> set (stop_route_names db (s_stop_id s))"
      by auto
    then show "n \<in> set (serving_routes db (fst k))"
      by (auto simp: stop_route_names_set group_key_def)
  next
    fix n
    assume "n \<in> set (serving_routes db (fst k))"
    then have "Some n \<in> set (stop_route_names db (s_stop_id s0))"
      using s0 by (auto simp: stop_route_names_set group_key_def)
    with s0 show "Some n \<in> set (?vals k)" by auto
  qed
  from string_agg_distinct_label [of "?vals k" "serving_routes db (fst k)", OF this]
  have "routes_or_empty agg = PStr (route_label db (fst k))"
    by (simp add: agg route_label_def)
  moreover have "\<exists>s \<in> set (stops db). located s \<and> group_key s = k"
    using s0 by (auto simp: located_def)
  ultimately show ?thesis by simp
qed

lemma stops_list_rows:
  "stops_list bi rows = Inr cache \<Longrightarrow>
     map (\<lambda>d. (map_of d ''id'', map_of d ''routes'')) cache =
     map (\<lambda>(k, agg). (Some (PStr (fst k)), Some (routes_or_empty agg))) rows"
proof (induction rows arbitrary: cache)
  case Nil
  then show ?case by simp
next
  case (Cons row rows)
  obtain sid name lat lon agg where row: "row = ((sid, name, lat, lon), agg)"
    by (cases row) auto
  from Cons.prems obtain la lo rest where
    "py_float bi lat = Inr la" "py_float bi lon = Inr lo" "stops_list bi rows = Inr rest"
    "cache = [(''id'', PStr sid), (''lat'', PFloat la), (''lng'', PFloat lo),
              (''routes'', routes_or_empty agg)] # rest"
    by (auto simp: row split: sum.splits)
  with Cons.IH [of rest] show ?case by (simp add: row)
qed

lemma stops_list_ok:
  assumes "\<forall>((sid, name, lat, lon), agg) \<in> set rows.
             (\<exists>x. py_float bi lat = Inr x) \<and> (\<exists>y. py_float bi lon = Inr y)"
  shows "\<exists>cache. stops_list bi rows = Inr cache"
  using assms
proof (induction rows)
  case Nil
  then show ?case by simp
next
  case (Cons row rows)
  obtain sid name lat lon agg where row: "row = ((sid, name, lat, lon), agg)"
    by (cases row) auto
  from Cons obtain rest where "stops_list bi rows = Inr rest" by auto
  moreover from Cons.prems obtain x y where "py_float bi lat = Inr x" "py_float bi lon = Inr y"
    by (auto simp: row)
  ultimately show ?case by (simp add: row)
qed

lemma map_of_stops_dict:
  assumes "map_of (stops_dict rows) sid = Some d"
  shows "\<exists>k agg. (k, agg) \<in> set rows \<and> fst k = sid \<and>
           map_of d ''routes'' = Some (routes_or_empty agg)"
proof -
  from map_of_SomeD [OF assms] have "(sid, d) \<in> set (stops_dict rows)" .
  then show ?thesis
    by (auto simp: stops_dict_def) blast
qed

text \<open>
  \<^bold>\<open>C7.\<close> After a load of the catalog that the database answers and in which the
  coordinates of the stops convert, every stop of the list form carries the label of its
  id: the short names of the routes that serve it, each once, in order, joined by a comma
  and a space. Every stop with both coordinates is in the list, and every stop of the
  dictionary form carries the same label.
\<close>

theorem catalog_route_labels:
  assumes "db_fault db StopsCatalog = None"
    and "\<forall>s \<in> set (stops db). located s \<longrightarrow>
           (\<exists>x. py_float bi (s_stop_lat s) = Inr x) \<and> (\<exists>y. py_float bi (s_stop_lon s) = Inr y)"
  shows "(\<forall>stop \<in> set (stops_cache (snd (load_and_cache_stops bi db st))).
            \<exists>sid. map_of stop ''id'' = Some (PStr sid) \<and>
                  map_of stop ''routes'' = Some (PStr (route_label db sid))) \<and>
         (\<forall>s \<in> set (stops db). located s \<longrightarrow>
            (\<exists>stop \<in> set (stops_cache (snd (load_and_cache_stops bi db st))).
               map_of stop ''id'' = Some (PStr (s_stop_id s)))) \<and>
         (\<forall>sid d. map_of (stop_details_cache (snd (load_and_cache_stops bi db st))) sid = Some d \<longrightarrow>
            map_of d ''routes'' = Some (PStr (route_label db sid)))"
proof -
  obtain rows where rows: "stops_query db = Inr rows"
    using assms(1) by (simp add: stops_query_def Let_def)
  have keys: "fst ` set rows = group_key ` {s \<in> set (stops db). located s}"
    using rows assms(1) by (auto simp: stops_query_def Let_def located_def image_iff)
  have "\<forall>((sid, name, lat, lon), agg) \<in> set rows.
             (\<exists>x. py_float bi lat = Inr x) \<and> (\<exists>y. py_float bi lon = Inr y)"
  proof (clarify)
    fix sid name lat lon agg
    assume "((sid, name, lat, lon), agg) \<in> set rows"
    from stops_query_rows [OF rows this] obtain s where
      "s \<in> set (stops db)" "located s" "group_key s = (sid, name, lat, lon)" by auto
    with assms(2) show "(\<exists>x. py_float bi lat = Inr x) \<and> (\<exists>y. py_float bi lon = Inr y)"
      by (auto simp: group_key_def)
  qed
  from stops_list_ok [OF this] obtain cache where cache: "stops_list bi rows = Inr cache" ..
  have st': "snd (load_and_cache_stops bi db st) =
      print (PrintCount ''Cached '' (length cache) '' bus stops'')
        ((print (Print ''Loading bus stops from database...'') st)
           \<lparr>stops_cache := cache, stop_details_cache := stops_dict rows\<rparr>)"
    by (simp add: load_and_cache_stops_def rows cache Let_def)
  have sc: "stops_cache (snd (load_and_cache_stops bi db st)) = cache"
    and sd: "stop_details_cache (snd (load_and_cache_stops bi db st)) = stops_dict rows"
    by (simp_all add: st' print_def)
  note m = stops_list_rows [OF cache]
  have len: "length cache = length rows"
    using arg_cong [OF m, of length] by simp
  have nth: "\<And>i. i < length rows \<Longrightarrow>
      map_of (cache ! i) ''id'' = Some (PStr (fst (fst (rows ! i)))) \<and>
      map_of (cache ! i) ''routes'' = Some (routes_or_empty (snd (rows ! i)))"
  proof -
    fix i assume i: "i < length rows"
    from arg_cong [OF m, of "\<lambda>xs. xs ! i"] i len
    show "map_of (cache ! i) ''id'' = Some (PStr (fst (fst (rows ! i)))) \<and>
      map_of (cache ! i) ''routes'' = Some (routes_or_empty (snd (rows ! i)))"
      by (simp add: case_prod_beta)
  qed
  have p1: "\<forall>stop \<in> set cache.
            \<exists>sid. map_of stop ''id'' = Some (PStr sid) \<and>
                  map_of stop ''routes'' = Some (PStr (route_label db sid))"
  proof
    fix stop assume "stop \<in> set cache"
    then obtain i where i: "i < length cache" "stop = cache ! i"
      by (auto simp: in_set_conv_nth)
    then have "(fst (rows ! i), snd (rows ! i)) \<in> set rows"
      using len by simp
    from stops_query_rows [OF rows this] nth [of i] i len
    show "\<exists>sid. map_of stop ''id'' = Some (PStr sid) \<and>
                  map_of stop ''routes'' = Some (PStr (route_label db sid))"
      by auto
  qed
  have p2: "\<forall>s \<in> set (stops db). located s \<longrightarrow>
            (\<exists>stop \<in> set cache. map_of stop ''id'' = Some (PStr (s_stop_id s)))"
  proof (intro ballI impI)
    fix s assume "s \<in> set (stops db)" "located s"
    then have "group_key s \<in> fst ` set rows" using keys by auto
    then obtain i where i: "i < length rows" "fst (rows ! i) = group_key s"
      by (auto simp: in_set_conv_nth image_iff)
    with nth [of i] have "map_of (cache ! i) ''id'' = Some (PStr (s_stop_id s))"
      by (simp add: group_key_def)
    moreover have "cache ! i \<in> set cache" using i len by simp
    ultimately show "\<exists>stop \<in> set cache. map_of stop ''id'' = Some (PStr (s_stop_id s))"
      by blast
  qed
  have p3: "\<forall>sid d. map_of (stops_dict rows) sid = Some d \<longrightarrow>
            map_of d ''routes'' = Some (PStr (route_label db sid))"
  proof (intro allI impI)
    fix sid d assume "map_of (stops_dict rows) sid = Some d"
    from map_of_stops_dict [OF this] obtain k agg where
      k: "(k, agg) \<in> set rows" "fst k = sid" "map_of d ''routes'' = Some (routes_or_empty agg)"
      by blast
    from stops_query_rows [OF rows k(1)] k(2,3)
    show "map_of d ''routes'' = Some (PStr (route_label db sid))" by simp
  qed
  show ?thesis
    unfolding sc sd using p1 p2 p3 by blast
qed

text \<open>
  In the sample catalog the stop served by \<open>B\<close>, \<open>A\<close>, \<open>C\<close> and again \<open>A\<close> has the
  label \<open>A, B, C\<close>, and the stop that no route serves has the empty label.
\<close>

lemma sample_serving: "serving_routes sample_db ''S1'' = [''B'', ''A'', ''C'', ''A'']"
  by (simp add: serving_routes_def sample_db_def)

lemma sample_label: "route_label sample_db ''S1'' = ''A, B, C''"
  unfolding route_label_def sample_serving sorted_list_of_set_sort_remdups by simp

lemma sample_label2: "route_label sample_db ''S2'' = []"
  by (simp add: route_label_def serving_routes_def sample_db_def)

lemma sample_stops_query:
  "stops_query sample_db =
     Inr [((''S1'', PStr ''Rossio'', PFloat (FNum 38.71), PFloat (FNum (- 9.13))), Some ''A, B, C''),
          ((''S2'', PStr ''Cais'', PFloat (FNum 38.72), PFloat (FNum (- 9.14))), None)]"
  by (simp add: stops_query_def sample_db_def group_key_def stop_route_names_def left_join_def
      string_agg_distinct_def List.map_filter_simps)

lemma sample_load:
  "stops_cache (snd (load_and_cache_stops sample_python sample_db sample_server)) =
     [[(''id'', PStr ''S1''), (''lat'', PFloat (FNum 38.71)), (''lng'', PFloat (FNum (- 9.13))),
       (''routes'', PStr ''A, B, C'')],
      [(''id'', PStr ''S2''), (''lat'', PFloat (FNum 38.72)), (''lng'', PFloat (FNum (- 9.14))),
       (''routes'', PStr [])]]"
  by (simp add: load_and_cache_stops_def sample_stops_query routes_or_empty_def print_def)

theorem catalog_route_labels_witness:
  "stops_cache (snd (load_and_cache_stops sample_python sample_db sample_server)) =
     [[(''id'', PStr ''S1''), (''lat'', PFloat (FNum 38.71)), (''lng'', PFloat (FNum (- 9.13))),
       (''routes'', PStr ''A, B, C'')],
      [(''id'', PStr ''S2''), (''lat'', PFloat (FNum 38.72)), (''lng'', PFloat (FNum (- 9.14))),
       (''routes'', PStr [])]] \<and>
   set (serving_routes sample_db ''S1'') = {''B'', ''A'', ''C''} \<and>
   route_label sample_db ''S1'' = ''A, B, C''"
proof -
  have h1: "db_fault sample_db StopsCatalog = None"
    by (simp add: sample_db_def)
  have h2: "\<forall>s \<in> set (stops sample_db). located s \<longrightarrow>
           (\<exists>x. py_float sample_python (s_stop_lat s) = Inr x) \<and>
           (\<exists>y. py_float sample_python (s_stop_lon s) = Inr y)"
    by (simp add: sample_db_def located_def)
  have s: "set (serving_routes sample_db ''S1'') = {''B'', ''A'', ''C''}"
    by (auto simp: serving_routes_def sample_db_def)
  from catalog_route_labels [OF h1 h2, of sample_server]
  show ?thesis
    unfolding sample_load by (simp add: sample_label sample_label2 s)
qed

subsection \<open>Shapes of a route\<close>

text \<open>
  The count that the query orders by is not the number of points of a shape: the join
  repeats the points of a shape once for each trip that uses it, so that the count is the
  number of those trips times the number of points.
\<close>

lemma count_shape_rows_inner:
  "count_list
     [sh_shape_id s. s \<leftarrow> ss, t_shape_id t = Some (sh_shape_id s), A, t_shape_id t \<noteq> None, B] sid =
   (if A \<and> B \<and> t_shape_id t = Some sid
    then length (filter (\<lambda>s. sh_shape_id s = sid) ss) else 0)"
  by (induction ss) auto

lemma count_shape_rows_mid:
  "count_list
     [sh_shape_id s. ro \<leftarrow> rs, r_route_id ro = t_route_id t,
        s \<leftarrow> ss, t_shape_id t = Some (sh_shape_id s),
        r_route_short_name ro = Some rsn, t_shape_id t \<noteq> None, t_direction_id t = Some d] sid =
   length [t. ro \<leftarrow> rs, r_route_id ro = t_route_id t, r_route_short_name ro = Some rsn,
               t_direction_id t = Some d, t_shape_id t = Some sid] *
   length (filter (\<lambda>s. sh_shape_id s = sid) ss)"
proof (induction rs)
  case Nil
  show ?case by simp
next
  case (Cons ro rs)
  show ?case
    using Cons.IH
      count_shape_rows_inner [where ss = ss and t = t and A = "r_route_short_name ro = Some rsn"
        and B = "t_direction_id t = Some d" and sid = sid]
    by (auto simp: algebra_simps)
qed

lemma count_shape_rows:
  "count_list (route_shape_rows db rsn d) sid = trips_using db rsn d sid * points_of db sid"
proof -
  have "count_list
     [sh_shape_id s. t \<leftarrow> ts, ro \<leftarrow> rs, r_route_id ro = t_route_id t,
        s \<leftarrow> ss, t_shape_id t = Some (sh_shape_id s),
        r_route_short_name ro = Some rsn, t_shape_id t \<noteq> None, t_direction_id t = Some d] sid =
   length [t. t \<leftarrow> ts, ro \<leftarrow> rs, r_route_id ro = t_route_id t, r_route_short_name ro = Some rsn,
               t_direction_id t = Some d, t_shape_id t = Some sid] *
   length (filter (\<lambda>s. sh_shape_id s = sid) ss)" for ts rs ss
  proof (induction ts)
    case Nil
    show ?case by simp
  next
    case (Cons t ts)
    show ?case
      using Cons.IH
        count_shape_rows_mid [where rs = rs and t = t and ss = ss and rsn = rsn and d = d and sid = sid]
      by (simp add: algebra_simps)
  qed
  then show ?thesis
    by (simp add: route_shape_rows_def trips_using_def points_of_def)
qed

lemma sort_key_head_least:
  assumes "sort_key f xs = g # gs" and "x \<in> set xs"
  shows "f g \<le> f x"
proof -
  have "sorted (map f (sort_key f xs))" by (rule sorted_sort_key)
  moreover have "x \<in> set (sort_key f xs)" using assms(2) by simp
  ultimately show ?thesis using assms(1) by auto
qed

lemma route_shape_query_weighs_trips:
  assumes "route_shape_query db rsn d = Inr (Some (sid, n))"
  shows "n = trips_using db rsn d sid * points_of db sid \<and>
         (\<forall>sid'. trips_using db rsn d sid' * points_of db sid' \<le> n)"
proof -
  let ?groups = "route_shape_groups db rsn d"
  from assms obtain gs where s: "sort_key (\<lambda>g. - int (snd g)) ?groups = (sid, n) # gs"
    by (auto simp: route_shape_query_def split: option.splits list.splits)
  have "(sid, n) \<in> set (sort_key (\<lambda>g. - int (snd g)) ?groups)"
    by (simp add: s del: set_sort)
  then have mem: "(sid, n) \<in> set ?groups" by simp
  then have n: "n = trips_using db rsn d sid * points_of db sid"
    by (auto simp: route_shape_groups_def Let_def count_shape_rows)
  have "trips_using db rsn d sid' * points_of db sid' \<le> n" for sid'
  proof (cases "sid' \<in> set (route_shape_rows db rsn d)")
    case True
    then have "(sid', trips_using db rsn d sid' * points_of db sid') \<in> set ?groups"
      by (auto simp: route_shape_groups_def Let_def count_shape_rows)
    from sort_key_head_least [OF s this] show ?thesis
      by (simp only: snd_conv neg_le_iff_le of_nat_le_iff)
  next
    case False
    then have "count_list (route_shape_rows db rsn d) sid' = 0"
      by (simp add: count_list_0_iff)
    then have "trips_using db rsn d sid' * points_of db sid' = 0"
      by (simp only: count_shape_rows)
    then show ?thesis by (metis le0)
  qed
  with n show ?thesis by blast
qed

lemma shape_block_cases:
  assumes "shape_block bi db rsn d acc = Inr out"
  shows "out = acc \<or> (\<exists>ps. out = acc @ [[(''points'', PList ps), (''direction'', PInt d)]])"
  using assms
  by (auto simp: shape_block_def split: sum.splits option.splits if_splits prod.splits)

lemma shapes_per_direction:
  assumes "fst (get_shapes_for_route bi db rsn st) = Inr out"
  shows "map (\<lambda>shape. map_of shape ''direction'') out \<in>
           {[], [Some (PInt 0)], [Some (PInt 1)], [Some (PInt 0), Some (PInt 1)]}"
proof -
  have err: "\<And>e. fst (shapes_error e st) \<noteq> Inr out"
    by (simp add: shapes_error_def)
  from assms err obtain out0 where b0: "shape_block bi db rsn 0 [] = Inr out0"
    by (cases "shape_block bi db rsn 0 []") (auto simp: get_shapes_for_route_def)
  from assms err b0 have b1: "shape_block bi db rsn 1 out0 = Inr out"
    by (cases "shape_block bi db rsn 1 out0") (auto simp: get_shapes_for_route_def)
  from shape_block_cases [OF b0] shape_block_cases [OF b1] show ?thesis
    by auto
qed

lemma two_shapes_rows:
  "route_shape_groups two_shapes_db ''728'' 0 = [(''S1'', 40), (''S2'', 50)]"
  by code_simp

lemma two_shapes_query:
  "route_shape_query two_shapes_db ''728'' 0 = Inr (Some (''S2'', 50))"
  by code_simp

lemma two_shapes_query1:
  "route_shape_query two_shapes_db ''728'' 1 = Inr None"
  by code_simp

lemma two_shapes_points:
  "points_query two_shapes_db ''S2'' = Inr (shape_rows ''S2'' 2 10)"
  by code_simp

lemma two_shapes_points_list:
  "points_list bi (shape_rows ''S2'' 2 10) =
     Inr (replicate 10 (PList [PFloat (FNum 2), PFloat (FNum (- 9))]))"
  by (simp add: shape_rows_def upt_rec_numeral eval_nat_numeral)

text \<open>
  \<^bold>\<open>C5.\<close> For each direction the query should return the shape with the most
  points among those that the trips of the route use: for a route whose trips in
  direction 0 use \<open>S1\<close> with 40 points and \<open>S2\<close> with 10 points, \<open>S1\<close>. The code
  returns \<open>S2\<close> when one trip uses \<open>S1\<close> and five trips use \<open>S2\<close>: it compares 40
  with 50.
\<close>

theorem busy_short_shape_selected:
  "length (filter (\<lambda>s. sh_shape_id s = ''S1'') (shapes two_shapes_db)) = 40 \<and>
   length (filter (\<lambda>s. sh_shape_id s = ''S2'') (shapes two_shapes_db)) = 10 \<and>
   fst (get_shapes_for_route bi two_shapes_db ''728'' st) =
     Inr [[(''points'', PList (replicate 10 (PList [PFloat (FNum 2), PFloat (FNum (- 9))]))),
           (''direction'', PInt 0)]]"
proof -
  have n1: "length (filter (\<lambda>s. sh_shape_id s = ''S1'') (shapes two_shapes_db)) = 40"
    by code_simp
  have n2: "length (filter (\<lambda>s. sh_shape_id s = ''S2'') (shapes two_shapes_db)) = 10"
    by code_simp
  have ne: "shape_rows ''S2'' 2 10 \<noteq> []"
    by (simp add: shape_rows_def)
  have b0: "shape_block bi two_shapes_db ''728'' 0 [] =
      Inr [[(''points'', PList (replicate 10 (PList [PFloat (FNum 2), PFloat (FNum (- 9))]))),
            (''direction'', PInt 0)]]"
    using ne
    by (simp add: shape_block_def two_shapes_query two_shapes_points two_shapes_points_list)
  have b1: "\<And>shapes. shape_block bi two_shapes_db ''728'' 1 shapes = Inr shapes"
    by (simp add: shape_block_def two_shapes_query1)
  show ?thesis
    by (simp add: n1 n2 get_shapes_for_route_def b0 b1)
qed

end
